theory Spec2Isabelle
  imports Complex_Main
begin

section \<open>Data model\<close>

text \<open>
  The scripts work on two parallel numpy arrays of one length: \<open>times\<close> (terrestrial
  time as a Julian date) and \<open>lon.degrees\<close>, the ecliptic longitude that the ephemeris
  library returns for each of those times. A series is modelled as one list of
  (time, longitude) pairs; \<open>times_of\<close> and \<open>longitudes_of\<close> are the two arrays.
  Floating-point values are idealised as real numbers (the ephemeris returns finite
  degree values).
\<close>

type_synonym sample = "real \<times> real"

definition times_of :: "sample list \<Rightarrow> real list" where
  "times_of samples = map fst samples"

definition longitudes_of :: "sample list \<Rightarrow> real list" where
  "longitudes_of samples = map snd samples"

text \<open>
  An emitted period is the dictionary appended to \<open>periods\<close>. Its entries
  \<open>start_jd\<close> and \<open>end_jd\<close> are the two Julian dates; the entries \<open>start\<close> and
  \<open>end\<close> are calendar renderings of the same two time objects by the ephemeris
  library and are left out.
\<close>

record period =
  start_jd :: real
  end_jd :: real

text \<open>The local variables of the extraction loop.\<close>

record locals =
  periods :: "period list"
  in_retrograde :: bool
  start_idx :: "nat option"

section \<open>Classification: \<open>is_retrograde\<close>\<close>

text \<open>\<open>np.diff\<close>: the differences of consecutive elements, empty below two elements.\<close>

fun np_diff :: "real list \<Rightarrow> real list" where
  "np_diff (x # y # xs) = (y - x) # np_diff (y # xs)"
| "np_diff xs = []"

text \<open>The two masked in-place updates, \<open>diffs[diffs > 180] -= 360\<close> and then
  \<open>diffs[diffs < -180] += 360\<close>, in the order of the source (\<open>ds\<close> is the array \<open>diffs\<close>).\<close>

definition wrap_high :: "real list \<Rightarrow> real list" where
  "wrap_high ds = map (\<lambda>d. if d > 180 then d - 360 else d) ds"

definition wrap_low :: "real list \<Rightarrow> real list" where
  "wrap_low ds = map (\<lambda>d. if d < - 180 then d + 360 else d) ds"

definition wrapped_diffs :: "real list \<Rightarrow> real list" where
  "wrapped_diffs ecliptic_longitudes = wrap_low (wrap_high (np_diff ecliptic_longitudes))"

definition is_retrograde :: "real list \<Rightarrow> bool list" where
  "is_retrograde ecliptic_longitudes = map (\<lambda>d. d < 0) (wrapped_diffs ecliptic_longitudes)"

section \<open>The scan over the classification\<close>

text \<open>\<open>for i, is_retro in enumerate(retrograde)\<close>, started at index \<open>i\<close>.\<close>

fun for_enumerate :: "(nat \<Rightarrow> bool \<Rightarrow> locals \<Rightarrow> locals) \<Rightarrow> nat \<Rightarrow> bool list \<Rightarrow> locals \<Rightarrow> locals" where
  "for_enumerate body i [] s = s"
| "for_enumerate body i (is_retro # rest) s = for_enumerate body (Suc i) rest (body i is_retro s)"

text \<open>The loop body of \<open>find_retrograde_periods\<close> and of
  \<open>find_earth_retrograde_periods\<close> (the two calculators have the same body); \<open>tms\<close> is the array \<open>times\<close>.\<close>

definition scan_body :: "real list \<Rightarrow> nat \<Rightarrow> bool \<Rightarrow> locals \<Rightarrow> locals" where
  "scan_body tms i is_retro s =
     (if is_retro \<and> \<not> in_retrograde s then
        s\<lparr>start_idx := Some i, in_retrograde := True\<rparr>
      else if \<not> is_retro \<and> in_retrograde s then
        (case start_idx s of
           Some k \<Rightarrow> s\<lparr>periods := periods s @ [\<lparr>start_jd = tms ! k, end_jd = tms ! i\<rparr>],
                       in_retrograde := False\<rparr>
         | None \<Rightarrow> s\<lparr>in_retrograde := False\<rparr>)
      else s)"

text \<open>The loop body of \<open>generate_test_data.main\<close>: the test for \<open>start_idx\<close> is part
  of the \<open>elif\<close> condition there.\<close>

definition scan_body_test_data :: "real list \<Rightarrow> nat \<Rightarrow> bool \<Rightarrow> locals \<Rightarrow> locals" where
  "scan_body_test_data tms i is_retro s =
     (if is_retro \<and> \<not> in_retrograde s then
        s\<lparr>start_idx := Some i, in_retrograde := True\<rparr>
      else if \<not> is_retro \<and> in_retrograde s \<and> start_idx s \<noteq> None then
        s\<lparr>periods := periods s @ [\<lparr>start_jd = tms ! the (start_idx s), end_jd = tms ! i\<rparr>],
          in_retrograde := False\<rparr>
      else s)"

text \<open>
  The extraction of one chunk in the calculators: classify, reset the two flags, scan,
  and do nothing for a run that is still open (\<open>pass\<close>). \<open>periods\<close> is the list
  shared by all chunks of one body.
\<close>

definition scan_chunk :: "sample list \<Rightarrow> period list \<Rightarrow> locals" where
  "scan_chunk samples periods0 =
     (let tms = times_of samples;
          retrograde = is_retrograde (longitudes_of samples)
      in for_enumerate (scan_body tms) 0 retrograde
           \<lparr>periods = periods0, in_retrograde = False, start_idx = None\<rparr>)"

text \<open>The local variables after the first \<open>n\<close> iterations of that loop.\<close>

definition scan_steps :: "sample list \<Rightarrow> period list \<Rightarrow> nat \<Rightarrow> locals" where
  "scan_steps samples periods0 n =
     for_enumerate (scan_body (times_of samples)) 0
       (take n (is_retrograde (longitudes_of samples)))
       \<lparr>periods = periods0, in_retrograde = False, start_idx = None\<rparr>"

definition extract_chunk :: "sample list \<Rightarrow> period list \<Rightarrow> period list" where
  "extract_chunk samples periods0 = periods (scan_chunk samples periods0)"

text \<open>
  The extraction of \<open>generate_test_data.main\<close>, one pass over the whole year: a run
  still open after the loop is closed at \<open>times[-1]\<close>.
\<close>

definition scan_test_data :: "sample list \<Rightarrow> locals" where
  "scan_test_data samples =
     (let tms = times_of samples;
          retrograde = is_retrograde (longitudes_of samples)
      in for_enumerate (scan_body_test_data tms) 0 retrograde
           \<lparr>periods = [], in_retrograde = False, start_idx = None\<rparr>)"

definition extract_test_data :: "sample list \<Rightarrow> period list" where
  "extract_test_data samples =
     (let s = scan_test_data samples
      in if in_retrograde s \<and> start_idx s \<noteq> None then
           periods s @ [\<lparr>start_jd = times_of samples ! the (start_idx s),
                         end_jd = last (times_of samples)\<rparr>]
         else periods s)"

section \<open>The chunk loop of the calculators\<close>

text \<open>
  The configuration of a calculator module: \<open>START_YEAR = -10000\<close>,
  \<open>END_YEAR = 10000\<close> with \<open>chunk_years = 100\<close> in \<open>retrograde_calculator.py\<close>, and
  1950, 2050 with 10 in \<open>retrograde_calculator_1950_2050.py\<close>. The number of samples of
  a chunk is \<open>int((end_date.tt - start_date.tt) * 365.25)\<close> in the first module and
  \<open>int((end_date.tt - start_date.tt))\<close> in the second: \<open>samples_per_day\<close> is that
  factor. The rest of the code of the two modules is the same, so they share one model
  with these constants as a record.
\<close>

record config =
  START_YEAR :: int
  END_YEAR :: int
  chunk_years :: int
  samples_per_day :: real

definition calculator_config :: config where
  "calculator_config =
     \<lparr>START_YEAR = - 10000, END_YEAR = 10000, chunk_years = 100, samples_per_day = 365.25\<rparr>"

definition calculator_1950_2050_config :: config where
  "calculator_1950_2050_config =
     \<lparr>START_YEAR = 1950, END_YEAR = 2050, chunk_years = 10, samples_per_day = 1\<rparr>"

datatype py_error = ZeroDivisionError | ValueError

text \<open>\<open>range(start, stop, step)\<close> for a positive step (the step is the literal
  \<open>chunk_years\<close>, 100 or 10).\<close>

definition py_range :: "int \<Rightarrow> int \<Rightarrow> int \<Rightarrow> int list" where
  "py_range start stop step =
     map (\<lambda>k. start + int k * step) [0 ..< nat ((stop - start + step - 1) div step)]"

text \<open>\<open>int(x)\<close> of a float: rounding towards zero.\<close>

definition py_int :: "real \<Rightarrow> int" where
  "py_int x = (if 0 \<le> x then \<lfloor>x\<rfloor> else \<lceil>x\<rceil>)"

text \<open>
  \<open>np.linspace(start, stop, num)\<close>: \<open>num\<close> evenly spaced values from \<open>start\<close> to
  \<open>stop\<close>, both included; the single value \<open>start\<close> for \<open>num = 1\<close>, no value for
  \<open>num = 0\<close>, and a \<open>ValueError\<close> for a negative \<open>num\<close>.
\<close>

definition np_linspace :: "real \<Rightarrow> real \<Rightarrow> int \<Rightarrow> py_error + real list" where
  "np_linspace start stop num =
     (if num < 0 then Inl ValueError
      else Inr (map (\<lambda>i. start + real i * ((stop - start) / real_of_int (num - 1)))
                  [0 ..< nat num]))"

text \<open>
  The two collaborators of the ephemeris library, which is not part of the repository,
  are parameters. A time scale gives the terrestrial time, as a Julian date, of a
  calendar day: \<open>utc_tt y m d\<close> is \<open>ts.utc(y, m, d).tt\<close>. An ephemeris gives, for the
  chunk from \<open>chunk_start\<close> to \<open>chunk_end\<close>, the ecliptic longitude in degrees of the
  observed body as a function of the time, or \<open>None\<close> where the body is missing from
  the ephemerides or the position computation raises (both paths \<open>continue\<close> with
  \<open>periods\<close> as it is).
\<close>

type_synonym timescale = "int \<Rightarrow> int \<Rightarrow> int \<Rightarrow> real"

type_synonym ephemeris = "int \<Rightarrow> int \<Rightarrow> (real \<Rightarrow> real) option"

definition chunk_end_of :: "config \<Rightarrow> int \<Rightarrow> int" where
  "chunk_end_of cfg chunk_start = min (chunk_start + chunk_years cfg) (END_YEAR cfg)"

text \<open>The time array of a chunk: from Jan 1 of \<open>chunk_start\<close> to Dec 31 of
  \<open>chunk_end\<close>.\<close>

definition chunk_times :: "config \<Rightarrow> timescale \<Rightarrow> int \<Rightarrow> py_error + real list" where
  "chunk_times cfg utc_tt chunk_start =
     (let chunk_end = chunk_end_of cfg chunk_start;
          start_date = utc_tt chunk_start 1 1;
          end_date = utc_tt chunk_end 12 31;
          num_days = py_int ((end_date - start_date) * samples_per_day cfg)
      in np_linspace start_date end_date num_days)"

text \<open>The samples of a chunk: the longitude at each time of the array.\<close>

definition observe :: "(real \<Rightarrow> real) \<Rightarrow> real list \<Rightarrow> sample list" where
  "observe lon tms = map (\<lambda>t. (t, lon t)) tms"

text \<open>One iteration of the chunk loop. The time array is built before the \<open>try\<close>
  blocks, so its error leaves the loop.\<close>

definition process_chunk ::
  "config \<Rightarrow> timescale \<Rightarrow> ephemeris \<Rightarrow> period list \<Rightarrow> int \<Rightarrow> py_error + period list" where
  "process_chunk cfg utc_tt eph periods0 chunk_start =
     (case chunk_times cfg utc_tt chunk_start of
        Inl e \<Rightarrow> Inl e
      | Inr tms \<Rightarrow>
          (case eph chunk_start (chunk_end_of cfg chunk_start) of
             None \<Rightarrow> Inr periods0
           | Some lon \<Rightarrow> Inr (extract_chunk (observe lon tms) periods0)))"

text \<open>\<open>for chunk_start in range(...)\<close>, stopping at the first error.\<close>

fun chunk_loop ::
  "(period list \<Rightarrow> int \<Rightarrow> py_error + period list) \<Rightarrow> period list \<Rightarrow> int list \<Rightarrow> py_error + period list" where
  "chunk_loop body periods0 [] = Inr periods0"
| "chunk_loop body periods0 (chunk_start # rest) =
     (case body periods0 chunk_start of
        Inl e \<Rightarrow> Inl e
      | Inr periods1 \<Rightarrow> chunk_loop body periods1 rest)"

definition find_retrograde_periods ::
  "config \<Rightarrow> timescale \<Rightarrow> ephemeris \<Rightarrow> py_error + period list" where
  "find_retrograde_periods cfg utc_tt eph =
     chunk_loop (process_chunk cfg utc_tt eph) []
       (py_range (START_YEAR cfg) (END_YEAR cfg) (chunk_years cfg))"

text \<open>The sample arrays the chunk loop scans: those of one chunk (none where the
  iteration is left by \<open>continue\<close> or the time array raises), and those of all chunks
  in the order of the loop.\<close>

definition chunk_samples :: "config \<Rightarrow> timescale \<Rightarrow> ephemeris \<Rightarrow> int \<Rightarrow> sample list list" where
  "chunk_samples cfg utc_tt eph chunk_start =
     (case chunk_times cfg utc_tt chunk_start of
        Inl e \<Rightarrow> []
      | Inr tms \<Rightarrow>
          (case eph chunk_start (chunk_end_of cfg chunk_start) of
             None \<Rightarrow> []
           | Some lon \<Rightarrow> [observe lon tms]))"

definition scanned_chunks :: "config \<Rightarrow> timescale \<Rightarrow> ephemeris \<Rightarrow> sample list list" where
  "scanned_chunks cfg utc_tt eph =
     concat (map (chunk_samples cfg utc_tt eph)
               (py_range (START_YEAR cfg) (END_YEAR cfg) (chunk_years cfg)))"

text \<open>
  Concrete inputs. The time scale \<open>quarter_scale\<close> counts quarter years, which keeps the
  arrays short; like the library's, it puts Jan 1 of a year before Dec 31 of that year
  and Dec 31 before Jan 1 of the next. With it, \<open>two_chunks_config\<close> has the chunks of
  2024 and of 2026, each of eleven samples 1.1 apart, the first from 8096 to 8107 and
  the second from 8104 to 8115; \<open>one_chunk_config\<close> covers the same years in a single
  chunk, and \<open>last_chunk_config\<close> is a single chunk of seven samples from 8096 to 8103.
  With the ephemeris \<open>drop_ephemeris\<close> the longitude drops once, from 10 to 8 at the
  time 8105; with \<open>falling_ephemeris\<close> it decreases throughout.
\<close>

definition quarter_scale :: timescale where
  "quarter_scale y m d = real_of_int (4 * y + (m - 1) div 3)"

definition two_chunks_config :: config where
  "two_chunks_config = \<lparr>START_YEAR = 2024, END_YEAR = 2028, chunk_years = 2, samples_per_day = 1\<rparr>"


definition last_chunk_config :: config where
  "last_chunk_config = \<lparr>START_YEAR = 2024, END_YEAR = 2025, chunk_years = 1, samples_per_day = 1\<rparr>"

definition drop_ephemeris :: ephemeris where
  "drop_ephemeris chunk_start chunk_end = Some (\<lambda>t. if t < 8105 then 10 else 8)"

definition falling_ephemeris :: ephemeris where
  "falling_ephemeris chunk_start chunk_end = Some (\<lambda>t. 8110 - t)"

section \<open>The per-body entry of the aggregate output\<close>

record planet_entry =
  entry_periods :: "period list"
  count :: nat
  average_per_year :: real

text \<open>The entry built by \<open>calculate_all_retrogrades\<close>:
  \<open>len(periods) / (END_YEAR - START_YEAR) if periods else 0\<close>, where the division of
  Python raises for a zero divisor.\<close>

definition make_entry :: "config \<Rightarrow> period list \<Rightarrow> py_error + planet_entry" where
  "make_entry cfg ps =
     (if ps \<noteq> [] then
        (if END_YEAR cfg - START_YEAR cfg = 0 then Inl ZeroDivisionError
         else Inr \<lparr>entry_periods = ps, count = length ps,
                   average_per_year = real (length ps) / real_of_int (END_YEAR cfg - START_YEAR cfg)\<rparr>)
      else Inr \<lparr>entry_periods = ps, count = length ps, average_per_year = 0\<rparr>)"

definition calculate_entry :: "config \<Rightarrow> timescale \<Rightarrow> ephemeris \<Rightarrow> py_error + planet_entry" where
  "calculate_entry cfg utc_tt eph =
     (case find_retrograde_periods cfg utc_tt eph of
        Inl e \<Rightarrow> Inl e
      | Inr ps \<Rightarrow> make_entry cfg ps)"

text \<open>The entry built by \<open>generate_test_data.main\<close> for its single year 2024: the
  average is \<open>len(periods)\<close>; \<open>None\<close> stands for an exception of the ephemeris
  library, where the entry is the empty one.\<close>

definition test_data_entry :: "sample list option \<Rightarrow> planet_entry" where
  "test_data_entry observed =
     (case observed of
        Some samples \<Rightarrow>
          (let ps = extract_test_data samples
           in \<lparr>entry_periods = ps, count = length ps, average_per_year = real (length ps)\<rparr>)
      | None \<Rightarrow> \<lparr>entry_periods = [], count = 0, average_per_year = 0\<rparr>)"

section \<open>The arrays in a store\<close>

text \<open>
  \<open>is_retrograde\<close> updates the array \<open>diffs\<close> in place. To state what a run leaves
  behind, the arrays live in a store: a list of arrays, an address is an index.
  \<open>np.diff\<close> allocates its result at a fresh address; the two masked updates write
  to that address; \<open>diffs < 0\<close> is a new boolean array, returned as a value.
\<close>

type_synonym store = "real list list"

definition np_diff_store :: "store \<Rightarrow> nat \<Rightarrow> store \<times> nat" where
  "np_diff_store h a = (h @ [np_diff (h ! a)], length h)"

definition is_retrograde_store :: "store \<Rightarrow> nat \<Rightarrow> bool list \<times> store" where
  "is_retrograde_store h ecliptic_longitudes =
     (let (h1, dfs) = np_diff_store h ecliptic_longitudes;
          h2 = h1[dfs := map (\<lambda>d. if d > 180 then d - 360 else d) (h1 ! dfs)];
          h3 = h2[dfs := map (\<lambda>d. if d < - 180 then d + 360 else d) (h2 ! dfs)]
      in (map (\<lambda>d. d < 0) (h3 ! dfs), h3))"

text \<open>One run of the extraction on the arrays at the addresses \<open>tms\<close> and
  \<open>longitudes\<close>, with a fresh list \<open>periods\<close>.\<close>

definition extract_store :: "store \<Rightarrow> nat \<Rightarrow> nat \<Rightarrow> period list \<times> store" where
  "extract_store h tms longitudes =
     (let (retrograde, h') = is_retrograde_store h longitudes;
          s = for_enumerate (scan_body (h' ! tms)) 0 retrograde
                \<lparr>periods = [], in_retrograde = False, start_idx = None\<rparr>
      in (periods s, h'))"

section \<open>Auxiliary functions for the proofs\<close>

text \<open>
  The index pairs of the runs that a scan closes, and the start of the run it leaves
  open: \<open>i\<close> is the index of the next flag, \<open>opn\<close> the start of the run in progress.
  They are used in the proofs only; the theorems are about the scan itself.
\<close>

fun run_bounds :: "nat \<Rightarrow> nat option \<Rightarrow> bool list \<Rightarrow> (nat \<times> nat) list" where
  "run_bounds i opn [] = []"
| "run_bounds i opn (True # rs) =
     run_bounds (Suc i) (case opn of None \<Rightarrow> Some i | Some k \<Rightarrow> Some k) rs"
| "run_bounds i opn (False # rs) =
     (case opn of None \<Rightarrow> run_bounds (Suc i) None rs
      | Some k \<Rightarrow> (k, i) # run_bounds (Suc i) None rs)"

fun open_run :: "nat \<Rightarrow> nat option \<Rightarrow> bool list \<Rightarrow> nat option" where
  "open_run i opn [] = opn"
| "open_run i opn (True # rs) =
     open_run (Suc i) (case opn of None \<Rightarrow> Some i | Some k \<Rightarrow> Some k) rs"
| "open_run i opn (False # rs) = open_run (Suc i) None rs"

definition run_of :: "locals \<Rightarrow> nat option" where
  "run_of s = (if in_retrograde s then start_idx s else None)"

definition mk_period :: "real list \<Rightarrow> nat \<times> nat \<Rightarrow> period" where
  "mk_period tms ab = \<lparr>start_jd = tms ! fst ab, end_jd = tms ! snd ab\<rparr>"

definition run_inv :: "locals \<Rightarrow> bool" where
  "run_inv s \<longleftrightarrow> (in_retrograde s \<longrightarrow> start_idx s \<noteq> None)"

section \<open>The classification\<close>

lemma length_np_diff: "length (np_diff xs) = length xs - 1"
  by (induction xs rule: np_diff.induct) auto

lemma nth_np_diff: "Suc i < length xs \<Longrightarrow> np_diff xs ! i = xs ! Suc i - xs ! i"
proof (induction xs arbitrary: i rule: np_diff.induct)
  case (1 x y xs)
  then show ?case by (cases i) auto
qed auto

lemma length_is_retrograde: "length (is_retrograde xs) = length xs - 1"
  by (simp add: is_retrograde_def wrapped_diffs_def wrap_low_def wrap_high_def length_np_diff)

lemma nth_wrapped_diffs:
  "Suc i < length xs \<Longrightarrow>
     wrapped_diffs xs ! i =
       (let delta = xs ! Suc i - xs ! i
        in if delta > 180 then delta - 360 else if delta < - 180 then delta + 360 else delta)"
  by (simp add: wrapped_diffs_def wrap_low_def wrap_high_def length_np_diff nth_np_diff Let_def)

lemma nth_is_retrograde:
  "Suc i < length xs \<Longrightarrow> is_retrograde xs ! i = (wrapped_diffs xs ! i < 0)"
  by (simp add: is_retrograde_def wrapped_diffs_def wrap_low_def wrap_high_def length_np_diff)

text \<open>
  C3: for every consecutive pair of samples \<open>i\<close>, \<open>i + 1\<close> the pair is classified as
  retrograde if and only if the difference of the two longitudes, reduced by 360 when
  above 180 and raised by 360 when below -180, is strictly negative; a difference of
  exactly 0 is classified as not retrograde; the series 350, 355, 2, 8 across the
  wraparound has the normalized differences 5, 7, 6 and no retrograde pair.
\<close>

theorem is_retrograde_normalized_delta:
  "(\<forall>i. Suc i < length longs \<longrightarrow>
      (is_retrograde longs ! i \<longleftrightarrow>
         (let delta = longs ! Suc i - longs ! i
          in if delta > 180 then delta - 360 else if delta < - 180 then delta + 360 else delta) < 0)
      \<and> (longs ! Suc i - longs ! i = 0 \<longrightarrow> \<not> is_retrograde longs ! i))
   \<and> length (is_retrograde longs) = length longs - 1
   \<and> wrapped_diffs [350, 355, 2, 8] = [5, 7, 6]
   \<and> is_retrograde [350, 355, 2, 8] = [False, False, False]"
proof -
  have a: "\<forall>i. Suc i < length longs \<longrightarrow>
      (is_retrograde longs ! i \<longleftrightarrow>
         (let delta = longs ! Suc i - longs ! i
          in if delta > 180 then delta - 360 else if delta < - 180 then delta + 360 else delta) < 0)
      \<and> (longs ! Suc i - longs ! i = 0 \<longrightarrow> \<not> is_retrograde longs ! i)"
    by (simp add: nth_is_retrograde nth_wrapped_diffs Let_def)
  have b: "wrapped_diffs [350, 355, 2, 8] = [5, 7, 6]"
    by (simp add: wrapped_diffs_def wrap_low_def wrap_high_def)
  have c: "is_retrograde [350, 355, 2, 8] = [False, False, False]"
    by (simp add: is_retrograde_def b)
  show ?thesis using a b c length_is_retrograde by blast
qed

theorem is_retrograde_normalized_delta_witness:
  "Suc 1 < length [5, 5, 3 :: real] \<and> \<not> is_retrograde [5, 5, 3] ! 0 \<and> is_retrograde [5, 5, 3] ! 1"
  using is_retrograde_normalized_delta [of "[5, 5, 3]"] by (simp add: Let_def)

section \<open>Series below two samples\<close>

lemma for_enumerate_append:
  "for_enumerate body i (xs @ ys) s = for_enumerate body (i + length xs) ys (for_enumerate body i xs s)"
  by (induction xs arbitrary: i s) auto

lemma np_diff_short: "length xs < 2 \<Longrightarrow> np_diff xs = []"
  by (cases xs rule: np_diff.cases) auto

lemma is_retrograde_short: "length xs < 2 \<Longrightarrow> is_retrograde xs = []"
  by (simp add: is_retrograde_def wrapped_diffs_def wrap_low_def wrap_high_def np_diff_short)

lemma extract_chunk_short: "length samples < 2 \<Longrightarrow> extract_chunk samples ps = ps"
  by (simp add: extract_chunk_def scan_chunk_def is_retrograde_short longitudes_of_def)

lemma extract_test_data_short: "length samples < 2 \<Longrightarrow> extract_test_data samples = []"
  by (simp add: extract_test_data_def scan_test_data_def is_retrograde_short longitudes_of_def)


text \<open>
  C8: for a sample series with fewer than 2 samples the extraction returns an empty
  interval list: the scan of a calculator chunk started with an empty list, which also
  leaves any list it is given as it is, and the one-pass extraction of the test data.
\<close>

theorem short_series_no_periods:
  "length samples < 2 \<Longrightarrow>
     extract_chunk samples [] = [] \<and> extract_chunk samples ps = ps \<and> extract_test_data samples = []"
  by (simp add: extract_chunk_short extract_test_data_short)

theorem short_series_no_periods_witness:
  "length [(2460000, 10 :: real)] < 2 \<and> extract_chunk [(2460000, 10)] [] = []
     \<and> extract_test_data [(2460000, 10)] = []"
  using short_series_no_periods [of "[(2460000, 10)]" "[]"] by simp

section \<open>The scan and the runs of the classification\<close>

lemma scan_body_inv: "run_inv s \<Longrightarrow> run_inv (scan_body tms i r s)"
  by (auto simp: run_inv_def scan_body_def split: option.splits)

lemma scan_body_True:
  "run_inv s \<Longrightarrow> periods (scan_body tms i True s) = periods s"
  "run_inv s \<Longrightarrow> run_of (scan_body tms i True s) = (case run_of s of None \<Rightarrow> Some i | Some k \<Rightarrow> Some k)"
  by (auto simp: run_inv_def scan_body_def run_of_def split: option.splits)

lemma scan_body_False:
  "run_inv s \<Longrightarrow> periods (scan_body tms i False s) =
     periods s @ (case run_of s of None \<Rightarrow> [] | Some k \<Rightarrow> [mk_period tms (k, i)])"
  "run_inv s \<Longrightarrow> run_of (scan_body tms i False s) = None"
  by (auto simp: run_inv_def scan_body_def run_of_def mk_period_def split: option.splits)

lemma scan_body_test_data_eq:
  "run_inv s \<Longrightarrow> scan_body_test_data tms i r s = scan_body tms i r s"
  by (auto simp: run_inv_def scan_body_def scan_body_test_data_def split: option.splits)

lemma for_enumerate_test_data_eq:
  "run_inv s \<Longrightarrow> for_enumerate (scan_body_test_data tms) i rs s = for_enumerate (scan_body tms) i rs s"
  by (induction rs arbitrary: i s) (auto simp: scan_body_test_data_eq scan_body_inv)

lemma for_enumerate_inv:
  "run_inv s \<Longrightarrow> run_inv (for_enumerate (scan_body tms) i rs s)"
  by (induction rs arbitrary: i s) (auto simp: scan_body_inv)

lemma for_enumerate_periods:
  "run_inv s \<Longrightarrow>
     periods (for_enumerate (scan_body tms) i rs s) =
       periods s @ map (mk_period tms) (run_bounds i (run_of s) rs)"
proof (induction rs arbitrary: i s)
  case Nil
  then show ?case by simp
next
  case (Cons r rs)
  show ?case
  proof (cases r)
    case True
    with Cons show ?thesis
      by (simp add: scan_body_inv scan_body_True)
  next
    case False
    with Cons show ?thesis
      by (simp add: scan_body_inv scan_body_False split: option.splits)
  qed
qed

lemma for_enumerate_run_of:
  "run_inv s \<Longrightarrow> run_of (for_enumerate (scan_body tms) i rs s) = open_run i (run_of s) rs"
proof (induction rs arbitrary: i s)
  case Nil
  then show ?case by simp
next
  case (Cons r rs)
  then show ?case
    by (cases r) (simp_all add: scan_body_inv scan_body_True scan_body_False)
qed

lemma run_bounds_range:
  "(a, b) \<in> set (run_bounds i opn rs) \<Longrightarrow> \<forall>k. opn = Some k \<longrightarrow> k < i \<Longrightarrow>
     (case opn of Some k \<Rightarrow> k \<le> a | None \<Rightarrow> i \<le> a) \<and> a < b \<and> i \<le> b \<and> b < i + length rs"
proof (induction rs arbitrary: i opn)
  case Nil
  then show ?case by simp
next
  case (Cons r rs)
  show ?case
  proof (cases r)
    case True
    with Cons.prems have "(a, b) \<in> set (run_bounds (Suc i) (case opn of None \<Rightarrow> Some i | Some k \<Rightarrow> Some k) rs)"
      by simp
    from Cons.IH [OF this] Cons.prems(2) show ?thesis
      by (auto split: option.splits)
  next
    case False
    show ?thesis
    proof (cases "(a, b) \<in> set (run_bounds (Suc i) None rs)")
      case True
      from Cons.IH [OF this] Cons.prems(2) show ?thesis
        by (auto split: option.splits)
    next
      case nin: False
      with Cons.prems False show ?thesis
        by (auto split: option.splits)
    qed
  qed
qed

lemma run_bounds_snd_ge:
  "(a, b) \<in> set (run_bounds i opn rs) \<Longrightarrow> i \<le> b"
proof (induction rs arbitrary: i opn)
  case Nil
  then show ?case by simp
next
  case (Cons r rs)
  show ?case
  proof (cases r)
    case True
    with Cons.prems have "(a, b) \<in> set (run_bounds (Suc i) (case opn of None \<Rightarrow> Some i | Some k \<Rightarrow> Some k) rs)"
      by simp
    from Cons.IH [OF this] show ?thesis by simp
  next
    case False
    with Cons.prems have "(a, b) \<in> set (run_bounds (Suc i) None rs) \<or> b = i"
      by (auto split: option.splits)
    with Cons.IH [of "Suc i" None] show ?thesis by auto
  qed
qed

lemma nth_Cons_shift: "i < m \<Longrightarrow> (r # rs) ! (m - i) = rs ! (m - Suc i)"
  by (simp add: nth_Cons' Suc_diff_Suc)

lemma run_bounds_flags:
  "(a, b) \<in> set (run_bounds i opn rs) \<Longrightarrow>
     \<not> rs ! (b - i) \<and> (\<forall>m. i \<le> m \<and> a \<le> m \<and> m < b \<longrightarrow> rs ! (m - i))"
proof (induction rs arbitrary: i opn)
  case Nil
  then show ?case by simp
next
  case (Cons r rs)
  show ?case
  proof (cases r)
    case True
    with Cons.prems have mem: "(a, b) \<in> set (run_bounds (Suc i) (case opn of None \<Rightarrow> Some i | Some k \<Rightarrow> Some k) rs)"
      by simp
    from Cons.IH [OF this] have ih: "\<not> rs ! (b - Suc i)" "\<And>m. Suc i \<le> m \<Longrightarrow> a \<le> m \<Longrightarrow> m < b \<Longrightarrow> rs ! (m - Suc i)"
      by auto
    from run_bounds_snd_ge [OF mem] have b: "i < b" by simp
    have "rs ! (m - Suc i)" if "i < m" "a \<le> m" "m < b" for m
      using ih(2) that by simp
    then have "(r # rs) ! (m - i)" if "i \<le> m" "a \<le> m" "m < b" for m
      using that True by (cases "m = i") (simp_all add: nth_Cons_shift)
    with ih(1) b show ?thesis
      by (simp add: nth_Cons_shift)
  next
    case False
    show ?thesis
    proof (cases "(a, b) \<in> set (run_bounds (Suc i) None rs)")
      case mem: True
      from Cons.IH [OF this] have ih: "\<not> rs ! (b - Suc i)" "\<And>m. Suc i \<le> m \<Longrightarrow> a \<le> m \<Longrightarrow> m < b \<Longrightarrow> rs ! (m - Suc i)"
        by auto
      from run_bounds_snd_ge [OF mem] have b: "i < b" by simp
      from run_bounds_range [OF mem] have a: "i < a" by simp
      have "(r # rs) ! (m - i)" if "i \<le> m" "a \<le> m" "m < b" for m
        using that a ih(2) [of m] by (simp add: nth_Cons_shift)
      with ih(1) b show ?thesis
        by (simp add: nth_Cons_shift)
    next
      case nin: False
      with Cons.prems False have "b = i"
        by (auto split: option.splits)
      with False show ?thesis by simp
    qed
  qed
qed

lemma run_bounds_start:
  "(a, b) \<in> set (run_bounds i opn rs) \<Longrightarrow>
     opn = Some a \<or> (opn = None \<and> a = i) \<or> (i < a \<and> \<not> rs ! (a - Suc i))"
proof (induction rs arbitrary: i opn)
  case Nil
  then show ?case by simp
next
  case (Cons r rs)
  show ?case
  proof (cases r)
    case True
    with Cons.prems have mem: "(a, b) \<in> set (run_bounds (Suc i) (case opn of None \<Rightarrow> Some i | Some k \<Rightarrow> Some k) rs)"
      by simp
    from Cons.IH [OF this] show ?thesis
      by (auto split: option.splits simp: nth_Cons_shift)
  next
    case False
    show ?thesis
    proof (cases "(a, b) \<in> set (run_bounds (Suc i) None rs)")
      case mem: True
      from Cons.IH [OF this] False show ?thesis
        by (auto simp: nth_Cons_shift)
    next
      case nin: False
      with Cons.prems False show ?thesis
        by (auto split: option.splits)
    qed
  qed
qed

lemma run_bounds_sorted:
  "\<forall>k. opn = Some k \<longrightarrow> k < i \<Longrightarrow> sorted_wrt (\<lambda>p q. snd p < fst q) (run_bounds i opn rs)"
proof (induction rs arbitrary: i opn)
  case Nil
  then show ?case by simp
next
  case (Cons r rs)
  show ?case
  proof (cases r)
    case True
    have "sorted_wrt (\<lambda>p q. snd p < fst q) (run_bounds (Suc i) (case opn of None \<Rightarrow> Some i | Some k \<Rightarrow> Some k) rs)"
      using Cons.prems by (intro Cons.IH) (auto split: option.splits)
    with True show ?thesis by simp
  next
    case False
    have ih: "sorted_wrt (\<lambda>p q. snd p < fst q) (run_bounds (Suc i) None rs)"
      by (intro Cons.IH) simp
    have "i < fst q" if "q \<in> set (run_bounds (Suc i) None rs)" for q
      using run_bounds_range [of "fst q" "snd q" "Suc i" None rs] that by simp
    with ih False show ?thesis
      by (auto split: option.splits)
  qed
qed

lemma open_run_last: "rs \<noteq> [] \<Longrightarrow> (open_run i opn rs \<noteq> None) = last rs"
proof (induction rs arbitrary: i opn)
  case Nil
  then show ?case by simp
next
  case (Cons r rs)
  then show ?case
    by (cases r; cases "rs = []") (auto split: option.splits)
qed

lemma open_run_range:
  "open_run i opn rs = Some k \<Longrightarrow> \<forall>k. opn = Some k \<longrightarrow> k < i \<Longrightarrow>
     (opn = Some k \<or> i \<le> k) \<and> k < i + length rs"
proof (induction rs arbitrary: i opn)
  case Nil
  then show ?case by simp
next
  case (Cons r rs)
  show ?case
  proof (cases r)
    case True
    with Cons.prems have "open_run (Suc i) (case opn of None \<Rightarrow> Some i | Some k \<Rightarrow> Some k) rs = Some k"
      by simp
    moreover have "\<forall>k'. (case opn of None \<Rightarrow> Some i | Some k \<Rightarrow> Some k) = Some k' \<longrightarrow> k' < Suc i"
      using Cons.prems(2) by (auto split: option.splits)
    ultimately have "((case opn of None \<Rightarrow> Some i | Some k \<Rightarrow> Some k) = Some k \<or> Suc i \<le> k) \<and> k < Suc i + length rs"
      by (rule Cons.IH)
    then show ?thesis
      by (auto split: option.splits)
  next
    case False
    with Cons.prems have "open_run (Suc i) None rs = Some k"
      by simp
    from Cons.IH [OF this] show ?thesis
      by auto
  qed
qed

lemma open_run_flags:
  "open_run i opn rs = Some k \<Longrightarrow> i \<le> m \<Longrightarrow> k \<le> m \<Longrightarrow> m < i + length rs \<Longrightarrow> rs ! (m - i)"
proof (induction rs arbitrary: i opn)
  case Nil
  then show ?case by simp
next
  case (Cons r rs)
  show ?case
  proof (cases r)
    case True
    with Cons.prems have "open_run (Suc i) (case opn of None \<Rightarrow> Some i | Some k \<Rightarrow> Some k) rs = Some k"
      by simp
    from Cons.IH [OF this, of ] Cons.prems True show ?thesis
      by (cases "m = i") (simp_all add: nth_Cons_shift)
  next
    case False
    with Cons.prems have opn: "open_run (Suc i) None rs = Some k"
      by simp
    from open_run_range [OF this] have "i < k" by simp
    with Cons.IH [OF opn] Cons.prems show ?thesis
      by (simp add: nth_Cons_shift)
  qed
qed

lemma open_run_start:
  "open_run i opn rs = Some k \<Longrightarrow>
     opn = Some k \<or> (opn = None \<and> k = i) \<or> (i < k \<and> \<not> rs ! (k - Suc i))"
proof (induction rs arbitrary: i opn)
  case Nil
  then show ?case by simp
next
  case (Cons r rs)
  show ?case
  proof (cases r)
    case True
    with Cons.prems have "open_run (Suc i) (case opn of None \<Rightarrow> Some i | Some k \<Rightarrow> Some k) rs = Some k"
      by simp
    from Cons.IH [OF this] show ?thesis
      by (auto split: option.splits simp: nth_Cons_shift)
  next
    case False
    with Cons.prems have opn: "open_run (Suc i) None rs = Some k"
      by simp
    from Cons.IH [OF this] False show ?thesis
      by (auto simp: nth_Cons_shift)
  qed
qed

lemma run_bounds_before_open:
  "(a, b) \<in> set (run_bounds i opn rs) \<Longrightarrow> open_run i opn rs = Some k \<Longrightarrow> b < k"
proof (induction rs arbitrary: i opn)
  case Nil
  then show ?case by simp
next
  case (Cons r rs)
  show ?case
  proof (cases r)
    case True
    with Cons.prems Cons.IH [of "Suc i" "case opn of None \<Rightarrow> Some i | Some k \<Rightarrow> Some k"] show ?thesis
      by simp
  next
    case False
    with Cons.prems have opn: "open_run (Suc i) None rs = Some k"
      by simp
    from open_run_range [OF this] have "i < k" by simp
    with Cons.prems False Cons.IH [OF _ opn] show ?thesis
      by (auto split: option.splits)
  qed
qed


section \<open>The scan step by step\<close>

lemma scan_steps_all:
  "length (is_retrograde (longitudes_of samples)) \<le> n \<Longrightarrow> scan_steps samples ps n = scan_chunk samples ps"
  by (simp add: scan_steps_def scan_chunk_def)

lemma scan_steps_Suc:
  "n < length (is_retrograde (longitudes_of samples)) \<Longrightarrow>
     scan_steps samples ps (Suc n) =
       scan_body (times_of samples) n (is_retrograde (longitudes_of samples) ! n) (scan_steps samples ps n)"
  by (simp add: scan_steps_def take_Suc_conv_app_nth for_enumerate_append)

lemma scan_steps_inv: "run_inv (scan_steps samples ps n)"
  unfolding scan_steps_def by (rule for_enumerate_inv) (simp add: run_inv_def)

lemma in_retrograde_run_of: "run_inv s \<Longrightarrow> in_retrograde s \<longleftrightarrow> run_of s \<noteq> None"
  by (auto simp: run_inv_def run_of_def)

lemma for_enumerate_in_retrograde:
  assumes "run_inv s" and "rs \<noteq> []"
  shows "in_retrograde (for_enumerate (scan_body tms) i rs s) = last rs"
proof -
  have "in_retrograde (for_enumerate (scan_body tms) i rs s) \<longleftrightarrow>
      run_of (for_enumerate (scan_body tms) i rs s) \<noteq> None"
    by (rule in_retrograde_run_of [OF for_enumerate_inv [OF assms(1)]])
  also have "\<dots> \<longleftrightarrow> open_run i (run_of s) rs \<noteq> None"
    by (simp only: for_enumerate_run_of [OF assms(1)])
  also have "\<dots> \<longleftrightarrow> last rs"
    by (rule open_run_last [OF assms(2)])
  finally show ?thesis .
qed

lemma scan_steps_in_retrograde:
  assumes "n \<le> length (is_retrograde (longitudes_of samples))"
  shows "in_retrograde (scan_steps samples ps n) \<longleftrightarrow> 0 < n \<and> is_retrograde (longitudes_of samples) ! (n - 1)"
proof (cases n)
  case 0
  then show ?thesis by (simp add: scan_steps_def)
next
  case (Suc m)
  with assms have "take n (is_retrograde (longitudes_of samples)) \<noteq> []"
    and "last (take n (is_retrograde (longitudes_of samples))) = is_retrograde (longitudes_of samples) ! m"
    by (auto simp: take_Suc_conv_app_nth)
  with Suc show ?thesis
    by (simp add: scan_steps_def for_enumerate_in_retrograde run_inv_def)
qed

lemma scan_steps_run:
  assumes "\<not> in_retrograde (scan_steps samples ps i)"
    and "\<forall>m. i \<le> m \<and> m < j \<longrightarrow> is_retrograde (longitudes_of samples) ! m"
    and "j \<le> length (is_retrograde (longitudes_of samples))"
    and "i \<le> m" and "m < j"
  shows "scan_steps samples ps (Suc m) = (scan_steps samples ps i)\<lparr>start_idx := Some i, in_retrograde := True\<rparr>"
  using assms(4,5)
proof (induction m rule: nat_induct_at_least)
  case base
  with assms show ?case
    by (simp add: scan_steps_Suc scan_body_def)
next
  case (Suc n)
  with assms show ?case
    by (simp add: scan_steps_Suc scan_body_def)
qed

lemma scan_steps_close:
  assumes "i < j" and "j < length (is_retrograde (longitudes_of samples))"
    and "i = 0 \<or> \<not> is_retrograde (longitudes_of samples) ! (i - 1)"
    and "\<forall>m. i \<le> m \<and> m < j \<longrightarrow> is_retrograde (longitudes_of samples) ! m"
    and "\<not> is_retrograde (longitudes_of samples) ! j"
  shows "start_idx (scan_steps samples ps (Suc i)) = Some i"
    and "in_retrograde (scan_steps samples ps (Suc i))"
    and "periods (scan_steps samples ps (Suc j)) =
           periods (scan_steps samples ps i) @
             [\<lparr>start_jd = times_of samples ! i, end_jd = times_of samples ! j\<rparr>]"
proof -
  from assms(1-3) have closed: "\<not> in_retrograde (scan_steps samples ps i)"
    by (auto simp: scan_steps_in_retrograde)
  from assms have run: "scan_steps samples ps (Suc m) =
      (scan_steps samples ps i)\<lparr>start_idx := Some i, in_retrograde := True\<rparr>" if "i \<le> m" "m < j" for m
    using scan_steps_run [OF closed assms(4) _ that] by simp
  from run [of i] assms(1) show "start_idx (scan_steps samples ps (Suc i)) = Some i"
    and "in_retrograde (scan_steps samples ps (Suc i))"
    by simp_all
  from assms(1) obtain m where m: "j = Suc m" "i \<le> m" "m < j"
    by (cases j) auto
  with run [of m] have "scan_steps samples ps j =
      (scan_steps samples ps i)\<lparr>start_idx := Some i, in_retrograde := True\<rparr>"
    by simp
  with assms(2,5) show "periods (scan_steps samples ps (Suc j)) =
           periods (scan_steps samples ps i) @
             [\<lparr>start_jd = times_of samples ! i, end_jd = times_of samples ! j\<rparr>]"
    by (simp add: scan_steps_Suc scan_body_def)
qed

lemma scan_steps_periods_kept:
  "set (periods (scan_steps samples ps n)) \<subseteq> set (extract_chunk samples ps)"
proof -
  let ?R = "is_retrograde (longitudes_of samples)"
  let ?init = "\<lparr>periods = ps, in_retrograde = False, start_idx = None\<rparr>"
  have "scan_chunk samples ps =
      for_enumerate (scan_body (times_of samples)) (0 + length (take n ?R)) (drop n ?R) (scan_steps samples ps n)"
    unfolding scan_steps_def scan_chunk_def Let_def
    by (subst for_enumerate_append [symmetric]) simp
  then show ?thesis
    by (simp add: extract_chunk_def for_enumerate_periods scan_steps_inv)
qed

lemma basic_run_example:
  "extract_chunk [(t0, 10), (t1, 12), (t2, 11), (t3, 9), (t4, 8), (t5, 10), (t6, 13)] [] =
     [\<lparr>start_jd = t1, end_jd = t4\<rparr>]"
  by (simp add: extract_chunk_def scan_chunk_def times_of_def longitudes_of_def is_retrograde_def
      wrapped_diffs_def wrap_low_def wrap_high_def scan_body_def)


text \<open>
  C4: in the left-to-right scan of a calculator chunk, a change from not retrograde to
  retrograde at difference index \<open>i\<close> (or a retrograde first difference, \<open>i = 0\<close>) sets
  \<open>start_idx\<close> to \<open>i\<close>, and the following change back at index \<open>j\<close> appends exactly
  the period from \<open>times[i]\<close> to \<open>times[j]\<close>: nothing else is appended between the two,
  and the period stays in the list the chunk returns. For the longitudes
  10, 12, 11, 9, 8, 10, 13 the scan returns exactly one period, from \<open>times[1]\<close> to
  \<open>times[4]\<close>.
\<close>

theorem scan_emits_at_transition:
  "(\<forall>i j. i < j \<and> j < length (is_retrograde (longitudes_of samples))
       \<and> (i = 0 \<or> \<not> is_retrograde (longitudes_of samples) ! (i - 1))
       \<and> (\<forall>m. i \<le> m \<and> m < j \<longrightarrow> is_retrograde (longitudes_of samples) ! m)
       \<and> \<not> is_retrograde (longitudes_of samples) ! j
     \<longrightarrow> start_idx (scan_steps samples ps (Suc i)) = Some i
         \<and> in_retrograde (scan_steps samples ps (Suc i))
         \<and> periods (scan_steps samples ps (Suc j)) =
             periods (scan_steps samples ps i) @
               [\<lparr>start_jd = times_of samples ! i, end_jd = times_of samples ! j\<rparr>]
         \<and> \<lparr>start_jd = times_of samples ! i, end_jd = times_of samples ! j\<rparr>
               \<in> set (extract_chunk samples ps))
   \<and> (\<forall>t0 t1 t2 t3 t4 t5 t6.
         extract_chunk [(t0, 10), (t1, 12), (t2, 11), (t3, 9), (t4, 8), (t5, 10), (t6, 13)] [] =
           [\<lparr>start_jd = t1, end_jd = t4\<rparr>])"
proof (intro conjI allI impI)
  fix i j
  assume h: "i < j \<and> j < length (is_retrograde (longitudes_of samples))
       \<and> (i = 0 \<or> \<not> is_retrograde (longitudes_of samples) ! (i - 1))
       \<and> (\<forall>m. i \<le> m \<and> m < j \<longrightarrow> is_retrograde (longitudes_of samples) ! m)
       \<and> \<not> is_retrograde (longitudes_of samples) ! j"
  then have h1: "i < j" and h2: "j < length (is_retrograde (longitudes_of samples))"
    and h3: "i = 0 \<or> \<not> is_retrograde (longitudes_of samples) ! (i - 1)"
    and h4: "\<forall>m. i \<le> m \<and> m < j \<longrightarrow> is_retrograde (longitudes_of samples) ! m"
    and h5: "\<not> is_retrograde (longitudes_of samples) ! j"
    by blast+
  note close = scan_steps_close [OF h1 h2 h3 h4 h5]
  show "start_idx (scan_steps samples ps (Suc i)) = Some i" by (rule close(1))
  show "in_retrograde (scan_steps samples ps (Suc i))" by (rule close(2))
  show eq: "periods (scan_steps samples ps (Suc j)) =
             periods (scan_steps samples ps i) @
               [\<lparr>start_jd = times_of samples ! i, end_jd = times_of samples ! j\<rparr>]"
    by (rule close(3))
  have "\<lparr>start_jd = times_of samples ! i, end_jd = times_of samples ! j\<rparr>
      \<in> set (periods (scan_steps samples ps (Suc j)))"
    by (simp add: eq)
  with scan_steps_periods_kept [of samples ps "Suc j"]
  show "\<lparr>start_jd = times_of samples ! i, end_jd = times_of samples ! j\<rparr>
      \<in> set (extract_chunk samples ps)"
    by blast
next
  fix t0 t1 t2 t3 t4 t5 t6 :: real
  show "extract_chunk [(t0, 10), (t1, 12), (t2, 11), (t3, 9), (t4, 8), (t5, 10), (t6, 13)] [] =
           [\<lparr>start_jd = t1, end_jd = t4\<rparr>]"
    by (rule basic_run_example)
qed

theorem scan_emits_at_transition_witness:
  "is_retrograde (longitudes_of [(0, 10), (1, 12), (2, 11), (3, 9), (4, 8), (5, 10), (6, 13)]) =
     [False, True, True, True, False, False]
   \<and> start_idx (scan_steps [(0, 10), (1, 12), (2, 11), (3, 9), (4, 8), (5, 10), (6, 13)] [] 2) = Some 1
   \<and> periods (scan_steps [(0, 10), (1, 12), (2, 11), (3, 9), (4, 8), (5, 10), (6, 13)] [] 5) =
       periods (scan_steps [(0, 10), (1, 12), (2, 11), (3, 9), (4, 8), (5, 10), (6, 13)] [] 1) @
         [\<lparr>start_jd = 1, end_jd = 4\<rparr>]"
proof -
  let ?samples = "[(0, 10), (1, 12), (2, 11), (3, 9), (4, 8), (5, 10), (6, 13)] :: sample list"
  have R: "is_retrograde (longitudes_of ?samples) = [False, True, True, True, False, False]"
    by (simp add: longitudes_of_def is_retrograde_def wrapped_diffs_def wrap_low_def wrap_high_def)
  have run: "\<forall>m. 1 \<le> m \<and> m < 4 \<longrightarrow> [False, True, True, True, False, False] ! m"
  proof (intro allI impI)
    fix m :: nat
    assume "1 \<le> m \<and> m < 4"
    then have "m = 1 \<or> m = 2 \<or> m = 3" by arith
    then show "[False, True, True, True, False, False] ! m" by auto
  qed
  have hyp: "(1::nat) < 4 \<and> 4 < length (is_retrograde (longitudes_of ?samples))
       \<and> ((1::nat) = 0 \<or> \<not> is_retrograde (longitudes_of ?samples) ! (1 - 1))
       \<and> (\<forall>m. 1 \<le> m \<and> m < 4 \<longrightarrow> is_retrograde (longitudes_of ?samples) ! m)
       \<and> \<not> is_retrograde (longitudes_of ?samples) ! 4"
    unfolding R using run by simp
  from scan_emits_at_transition [of ?samples "[]"] hyp
  have "start_idx (scan_steps ?samples [] (Suc 1)) = Some 1
      \<and> periods (scan_steps ?samples [] (Suc 4)) =
          periods (scan_steps ?samples [] 1) @
            [\<lparr>start_jd = times_of ?samples ! 1, end_jd = times_of ?samples ! 4\<rparr>]"
    by blast
  then show ?thesis
    using R by (simp add: times_of_def eval_nat_numeral)
qed


section \<open>A run open at the end of the series\<close>

lemma scan_test_data_eq: "scan_test_data samples = scan_chunk samples []"
  by (simp add: scan_test_data_def scan_chunk_def for_enumerate_test_data_eq run_inv_def)

lemma scan_chunk_inv: "run_inv (scan_chunk samples ps)"
  unfolding scan_chunk_def Let_def by (rule for_enumerate_inv) (simp add: run_inv_def)

lemma scan_chunk_periods:
  "periods (scan_chunk samples ps) =
     ps @ map (mk_period (times_of samples)) (run_bounds 0 None (is_retrograde (longitudes_of samples)))"
  by (simp add: scan_chunk_def for_enumerate_periods run_inv_def run_of_def)

lemma scan_chunk_run_of:
  "run_of (scan_chunk samples ps) = open_run 0 None (is_retrograde (longitudes_of samples))"
  unfolding scan_chunk_def Let_def
  by (subst for_enumerate_run_of) (simp_all add: run_inv_def run_of_def)

lemma extract_chunk_append:
  "extract_chunk samples ps = ps @ extract_chunk samples []"
  by (simp add: extract_chunk_def scan_chunk_periods)

lemma extract_test_data_cases:
  "extract_test_data samples =
     (case open_run 0 None (is_retrograde (longitudes_of samples)) of
        None \<Rightarrow> extract_chunk samples []
      | Some k \<Rightarrow> extract_chunk samples [] @
          [\<lparr>start_jd = times_of samples ! k, end_jd = last (times_of samples)\<rparr>])"
proof -
  define s where "s = scan_chunk samples []"
  have inv: "run_inv s" unfolding s_def by (rule scan_chunk_inv)
  have ro: "run_of s = open_run 0 None (is_retrograde (longitudes_of samples))"
    unfolding s_def by (rule scan_chunk_run_of)
  have ex: "extract_test_data samples =
      (if in_retrograde s \<and> start_idx s \<noteq> None then
         periods s @ [\<lparr>start_jd = times_of samples ! the (start_idx s),
                        end_jd = last (times_of samples)\<rparr>]
       else periods s)"
    unfolding extract_test_data_def scan_test_data_eq s_def Let_def ..
  have ec: "extract_chunk samples [] = periods s"
    unfolding extract_chunk_def s_def ..
  show ?thesis
  proof (cases "in_retrograde s")
    case False
    then have "run_of s = None" by (simp add: run_of_def)
    with False ro [symmetric] show ?thesis
      by (simp add: ex ec)
  next
    case True
    with inv obtain k where k: "start_idx s = Some k"
      by (auto simp: run_inv_def)
    with True have "run_of s = Some k" by (simp add: run_of_def)
    with True k ro [symmetric] show ?thesis
      by (simp add: ex ec)
  qed
qed

lemma open_run_example:
  "extract_test_data [(t0, 10), (t1, 8), (t2, 6)] = [\<lparr>start_jd = t0, end_jd = t2\<rparr>]"
  by (simp add: extract_test_data_def scan_test_data_def times_of_def longitudes_of_def
      is_retrograde_def wrapped_diffs_def wrap_low_def wrap_high_def scan_body_test_data_def)

text \<open>
  The one-pass extraction of \<open>generate_test_data.main\<close> closes a run that is still
  open at the end of the series: when the last pair is classified retrograde, the list
  returned ends with one further period, from the sample where that run began to the
  last sample.
\<close>

lemma test_data_closes_open_run:
  "(is_retrograde (longitudes_of samples) \<noteq> [] \<and> last (is_retrograde (longitudes_of samples))
     \<longrightarrow> (\<exists>k. k < length (is_retrograde (longitudes_of samples))
            \<and> (k = 0 \<or> \<not> is_retrograde (longitudes_of samples) ! (k - 1))
            \<and> (\<forall>m. k \<le> m \<and> m < length (is_retrograde (longitudes_of samples))
                  \<longrightarrow> is_retrograde (longitudes_of samples) ! m)
            \<and> extract_test_data samples =
                periods (scan_test_data samples) @
                  [\<lparr>start_jd = times_of samples ! k, end_jd = fst (last samples)\<rparr>]))
   \<and> (\<forall>t0 t1 t2. extract_test_data [(t0, 10), (t1, 8), (t2, 6)] = [\<lparr>start_jd = t0, end_jd = t2\<rparr>])"
proof (intro conjI allI impI)
  let ?R = "is_retrograde (longitudes_of samples)"
  assume h: "?R \<noteq> [] \<and> last ?R"
  then have "open_run 0 None ?R \<noteq> None"
    using open_run_last [of ?R 0 None] by blast
  then obtain k where k: "open_run 0 None ?R = Some k" by blast
  from open_run_range [OF k] have k1: "k < length ?R" by simp
  from open_run_start [OF k] have k2: "k = 0 \<or> \<not> ?R ! (k - 1)" by auto
  from open_run_flags [OF k] have k3: "\<forall>m. k \<le> m \<and> m < length ?R \<longrightarrow> ?R ! m" by simp
  have "samples \<noteq> []"
  proof
    assume "samples = []"
    then have "?R = []" by (simp add: longitudes_of_def is_retrograde_short)
    with h show False by simp
  qed
  then have "last (times_of samples) = fst (last samples)"
    by (simp add: times_of_def last_map)
  with extract_test_data_cases [of samples] k
  have k4: "extract_test_data samples =
      periods (scan_test_data samples) @ [\<lparr>start_jd = times_of samples ! k, end_jd = fst (last samples)\<rparr>]"
    by (simp add: scan_test_data_eq extract_chunk_def)
  show "\<exists>k. k < length ?R \<and> (k = 0 \<or> \<not> ?R ! (k - 1))
            \<and> (\<forall>m. k \<le> m \<and> m < length ?R \<longrightarrow> ?R ! m)
            \<and> extract_test_data samples =
                periods (scan_test_data samples) @
                  [\<lparr>start_jd = times_of samples ! k, end_jd = fst (last samples)\<rparr>]"
    using k1 k2 k3 k4 by (intro exI [of _ k] conjI)
next
  fix t0 t1 t2 :: real
  show "extract_test_data [(t0, 10), (t1, 8), (t2, 6)] = [\<lparr>start_jd = t0, end_jd = t2\<rparr>]"
    by (rule open_run_example)
qed

section \<open>The emitted periods and the runs\<close>

lemma extract_chunk_runs:
  "extract_chunk samples [] =
     map (mk_period (times_of samples)) (run_bounds 0 None (is_retrograde (longitudes_of samples)))"
  by (simp add: extract_chunk_def scan_chunk_periods)

lemma length_flags: "length (is_retrograde (longitudes_of samples)) = length samples - 1"
  by (simp add: length_is_retrograde longitudes_of_def)

lemma strict_times_nth:
  "sorted_wrt (<) tms \<Longrightarrow> a < b \<Longrightarrow> b < length tms \<Longrightarrow> tms ! a < tms ! b"
  by (simp add: sorted_wrt_nth_less)


lemma run_bounds_in_series:
  assumes "(a, b) \<in> set (run_bounds 0 None (is_retrograde (longitudes_of samples)))"
  shows "a < b" and "b < length (times_of samples)" and "Suc b < length samples"
    and "\<not> is_retrograde (longitudes_of samples) ! b"
    and "\<forall>m. a \<le> m \<and> m < b \<longrightarrow> is_retrograde (longitudes_of samples) ! m"
    and "a = 0 \<or> \<not> is_retrograde (longitudes_of samples) ! (a - 1)"
proof -
  from run_bounds_range [OF assms] have r: "a < b" "b < length (is_retrograde (longitudes_of samples))"
    by simp_all
  then show "a < b" by simp
  from r(2) show "Suc b < length samples" by (simp add: length_flags)
  then show "b < length (times_of samples)" by (simp add: times_of_def)
  from run_bounds_flags [OF assms] show "\<not> is_retrograde (longitudes_of samples) ! b"
    and "\<forall>m. a \<le> m \<and> m < b \<longrightarrow> is_retrograde (longitudes_of samples) ! m"
    by simp_all
  from run_bounds_start [OF assms] show "a = 0 \<or> \<not> is_retrograde (longitudes_of samples) ! (a - 1)"
    by auto
qed

text \<open>
  C6: for a series with strictly increasing timestamps, every period that the scan of a
  calculator chunk emits starts strictly before it ends; it starts at the first sample
  of a run of retrograde pairs and ends at the sample with the first index after the
  run whose pair is not retrograde, which is later than the last retrograde one.
\<close>

theorem period_ends_at_first_prograde_sample:
  "sorted_wrt (<) (times_of samples) \<Longrightarrow>
     \<forall>p \<in> set (extract_chunk samples []).
       start_jd p < end_jd p \<and>
       (\<exists>i j. i < j \<and> j < length (is_retrograde (longitudes_of samples))
          \<and> (\<forall>m. i \<le> m \<and> m < j \<longrightarrow> is_retrograde (longitudes_of samples) ! m)
          \<and> \<not> is_retrograde (longitudes_of samples) ! j
          \<and> start_jd p = times_of samples ! i
          \<and> end_jd p = times_of samples ! j
          \<and> times_of samples ! (j - 1) < end_jd p)"
proof
  fix p
  assume st: "sorted_wrt (<) (times_of samples)" and "p \<in> set (extract_chunk samples [])"
  then obtain a b where ab: "(a, b) \<in> set (run_bounds 0 None (is_retrograde (longitudes_of samples)))"
    and p: "p = mk_period (times_of samples) (a, b)"
    by (auto simp: extract_chunk_runs)
  note rb = run_bounds_in_series [OF ab]
  from p have ps: "start_jd p = times_of samples ! a" and pe: "end_jd p = times_of samples ! b"
    by (simp_all add: mk_period_def)
  from strict_times_nth [OF st rb(1) rb(2)] have lt: "start_jd p < end_jd p"
    by (simp add: ps pe)
  from rb(1) have "b - 1 < b" by simp
  from strict_times_nth [OF st this rb(2)] have prev: "times_of samples ! (b - 1) < end_jd p"
    by (simp add: pe)
  from rb(3) have len: "b < length (is_retrograde (longitudes_of samples))"
    by (simp add: length_flags)
  have "\<exists>i j. i < j \<and> j < length (is_retrograde (longitudes_of samples))
          \<and> (\<forall>m. i \<le> m \<and> m < j \<longrightarrow> is_retrograde (longitudes_of samples) ! m)
          \<and> \<not> is_retrograde (longitudes_of samples) ! j
          \<and> start_jd p = times_of samples ! i
          \<and> end_jd p = times_of samples ! j
          \<and> times_of samples ! (j - 1) < end_jd p"
    using rb(1) len rb(5) rb(4) ps pe prev by (intro exI [of _ a] exI [of _ b] conjI)
  with lt show "start_jd p < end_jd p \<and>
       (\<exists>i j. i < j \<and> j < length (is_retrograde (longitudes_of samples))
          \<and> (\<forall>m. i \<le> m \<and> m < j \<longrightarrow> is_retrograde (longitudes_of samples) ! m)
          \<and> \<not> is_retrograde (longitudes_of samples) ! j
          \<and> start_jd p = times_of samples ! i
          \<and> end_jd p = times_of samples ! j
          \<and> times_of samples ! (j - 1) < end_jd p)"
    by (rule conjI)
qed


theorem period_ends_at_first_prograde_sample_witness:
  "sorted_wrt (<) (times_of [(0, 10), (1, 12), (2, 11), (3, 9), (4, 8), (5, 10), (6, 13)])
   \<and> \<lparr>start_jd = 1, end_jd = 4\<rparr> \<in> set (extract_chunk [(0, 10), (1, 12), (2, 11), (3, 9), (4, 8), (5, 10), (6, 13)] [])
   \<and> start_jd \<lparr>start_jd = 1, end_jd = 4\<rparr> < end_jd \<lparr>start_jd = 1, end_jd = 4\<rparr>
   \<and> (\<exists>i j. i < j
          \<and> \<not> is_retrograde (longitudes_of [(0, 10), (1, 12), (2, 11), (3, 9), (4, 8), (5, 10), (6, 13)]) ! j
          \<and> start_jd \<lparr>start_jd = 1, end_jd = 4\<rparr> = times_of [(0, 10), (1, 12), (2, 11), (3, 9), (4, 8), (5, 10), (6, 13)] ! i
          \<and> end_jd \<lparr>start_jd = 1, end_jd = 4\<rparr> = times_of [(0, 10), (1, 12), (2, 11), (3, 9), (4, 8), (5, 10), (6, 13)] ! j)"
proof -
  let ?samples = "[(0, 10), (1, 12), (2, 11), (3, 9), (4, 8), (5, 10), (6, 13)] :: sample list"
  let ?p = "\<lparr>start_jd = 1, end_jd = 4\<rparr>"
  have st: "sorted_wrt (<) (times_of ?samples)"
    by (simp add: times_of_def)
  have mem: "?p \<in> set (extract_chunk ?samples [])"
    by (simp add: basic_run_example)
  from period_ends_at_first_prograde_sample [OF st, THEN bspec, OF mem]
  have lt: "start_jd ?p < end_jd ?p"
    and ex: "\<exists>i j. i < j \<and> j < length (is_retrograde (longitudes_of ?samples))
          \<and> (\<forall>m. i \<le> m \<and> m < j \<longrightarrow> is_retrograde (longitudes_of ?samples) ! m)
          \<and> \<not> is_retrograde (longitudes_of ?samples) ! j
          \<and> start_jd ?p = times_of ?samples ! i
          \<and> end_jd ?p = times_of ?samples ! j
          \<and> times_of ?samples ! (j - 1) < end_jd ?p"
    by (rule conjunct1, rule conjunct2)
  from ex obtain i j where "i < j" "\<not> is_retrograde (longitudes_of ?samples) ! j"
    "start_jd ?p = times_of ?samples ! i" "end_jd ?p = times_of ?samples ! j"
    by (elim exE conjE)
  then have "\<exists>i j. i < j \<and> \<not> is_retrograde (longitudes_of ?samples) ! j
      \<and> start_jd ?p = times_of ?samples ! i \<and> end_jd ?p = times_of ?samples ! j"
    by (intro exI [of _ i] exI [of _ j] conjI)
  with st mem lt show ?thesis by (intro conjI)
qed

section \<open>Order of the emitted periods\<close>


lemma extract_chunk_disjoint:
  assumes "sorted_wrt (<) (times_of samples)"
  shows "sorted_wrt (\<lambda>p q. end_jd p < start_jd q) (extract_chunk samples [])"
  unfolding extract_chunk_runs sorted_wrt_map
proof (rule sorted_wrt_mono_rel [OF _ run_bounds_sorted])
  let ?rb = "run_bounds 0 None (is_retrograde (longitudes_of samples))"
  show "\<forall>k. None = Some k \<longrightarrow> k < (0::nat)" by simp
  fix x y
  assume "x \<in> set ?rb" and "y \<in> set ?rb" and lt: "snd x < fst y"
  then have x: "(fst x, snd x) \<in> set ?rb" and y: "(fst y, snd y) \<in> set ?rb" by simp_all
  from run_bounds_in_series(1,2) [OF y] have "fst y < length (times_of samples)" by simp
  from strict_times_nth [OF assms lt this]
  show "end_jd (mk_period (times_of samples) x) < start_jd (mk_period (times_of samples) y)"
    by (simp add: mk_period_def)
qed



lemma extract_test_data_disjoint:
  assumes "sorted_wrt (<) (times_of samples)"
  shows "sorted_wrt (\<lambda>p q. end_jd p < start_jd q) (extract_test_data samples)"
proof (cases "open_run 0 None (is_retrograde (longitudes_of samples))")
  case None
  then show ?thesis
    by (simp add: extract_test_data_cases extract_chunk_disjoint [OF assms])
next
  case (Some k)
  from open_run_range [OF Some] have k: "k < length (times_of samples)"
    by (simp add: length_flags times_of_def)
  have "end_jd p < times_of samples ! k" if "p \<in> set (extract_chunk samples [])" for p
  proof -
    from that obtain a b where ab: "(a, b) \<in> set (run_bounds 0 None (is_retrograde (longitudes_of samples)))"
      and p: "p = mk_period (times_of samples) (a, b)"
      by (auto simp: extract_chunk_runs)
    from run_bounds_before_open [OF ab Some] have "b < k" .
    from strict_times_nth [OF assms this k] p show ?thesis
      by (simp add: mk_period_def)
  qed
  with Some show ?thesis
    by (simp add: extract_test_data_cases sorted_wrt_append extract_chunk_disjoint [OF assms])
qed

text \<open>
  C10: for a series with strictly increasing timestamps processed in one pass, each
  emitted period ends strictly before every later period of the list starts, in
  particular before the next one; this holds for the scan of a calculator chunk and for
  the one-pass extraction of the test data with its closing period.
\<close>

theorem periods_pairwise_disjoint:
  "sorted_wrt (<) (times_of samples) \<Longrightarrow>
     sorted_wrt (\<lambda>p q. end_jd p < start_jd q) (extract_chunk samples [])
     \<and> (\<forall>n. Suc n < length (extract_chunk samples []) \<longrightarrow>
          end_jd (extract_chunk samples [] ! n) < start_jd (extract_chunk samples [] ! Suc n))
     \<and> sorted_wrt (\<lambda>p q. end_jd p < start_jd q) (extract_test_data samples)
     \<and> (\<forall>n. Suc n < length (extract_test_data samples) \<longrightarrow>
          end_jd (extract_test_data samples ! n) < start_jd (extract_test_data samples ! Suc n))"
proof -
  assume st: "sorted_wrt (<) (times_of samples)"
  note a = extract_chunk_disjoint [OF st]
  note b = extract_test_data_disjoint [OF st]
  have a': "\<forall>n. Suc n < length (extract_chunk samples []) \<longrightarrow>
          end_jd (extract_chunk samples [] ! n) < start_jd (extract_chunk samples [] ! Suc n)"
    using sorted_wrt_nth_less [OF a] by simp
  have b': "\<forall>n. Suc n < length (extract_test_data samples) \<longrightarrow>
          end_jd (extract_test_data samples ! n) < start_jd (extract_test_data samples ! Suc n)"
    using sorted_wrt_nth_less [OF b] by simp
  from a a' b b' show ?thesis by (intro conjI)
qed


theorem periods_pairwise_disjoint_witness:
  "sorted_wrt (<) (times_of [(0, 10), (1, 8), (2, 9), (3, 7), (4, 8)])
   \<and> extract_chunk [(0, 10), (1, 8), (2, 9), (3, 7), (4, 8)] [] =
       [\<lparr>start_jd = 0, end_jd = 1\<rparr>, \<lparr>start_jd = 2, end_jd = 3\<rparr>]
   \<and> end_jd (extract_chunk [(0, 10), (1, 8), (2, 9), (3, 7), (4, 8)] [] ! 0)
       < start_jd (extract_chunk [(0, 10), (1, 8), (2, 9), (3, 7), (4, 8)] [] ! Suc 0)"
proof -
  let ?samples = "[(0, 10), (1, 8), (2, 9), (3, 7), (4, 8)] :: sample list"
  have st: "sorted_wrt (<) (times_of ?samples)"
    by (simp add: times_of_def)
  have ev: "extract_chunk ?samples [] = [\<lparr>start_jd = 0, end_jd = 1\<rparr>, \<lparr>start_jd = 2, end_jd = 3\<rparr>]"
    by (simp add: extract_chunk_def scan_chunk_def times_of_def longitudes_of_def is_retrograde_def
        wrapped_diffs_def wrap_low_def wrap_high_def scan_body_def)
  then have len: "Suc 0 < length (extract_chunk ?samples [])" by simp
  from periods_pairwise_disjoint [OF st, THEN conjunct2, THEN conjunct1, THEN spec, THEN mp, OF len]
  have "end_jd (extract_chunk ?samples [] ! 0) < start_jd (extract_chunk ?samples [] ! Suc 0)" .
  with st ev show ?thesis by (intro conjI)
qed

section \<open>The chunk loop and the time arrays\<close>

lemma process_chunk_Inr:
  "process_chunk cfg utc_tt eph ps c = Inr qs \<Longrightarrow>
     qs = ps @ concat (map (\<lambda>samples. extract_chunk samples []) (chunk_samples cfg utc_tt eph c))"
  by (auto simp: process_chunk_def chunk_samples_def extract_chunk_append [of _ ps]
      split: sum.splits option.splits)

lemma chunk_loop_Inr:
  "chunk_loop (process_chunk cfg utc_tt eph) ps cs = Inr qs \<Longrightarrow>
     qs = ps @ concat (map (\<lambda>samples. extract_chunk samples [])
                         (concat (map (chunk_samples cfg utc_tt eph) cs)))"
proof (induction cs arbitrary: ps)
  case Nil
  then show ?case by simp
next
  case (Cons c cs)
  from Cons.prems obtain ps1 where p1: "process_chunk cfg utc_tt eph ps c = Inr ps1"
    and rest: "chunk_loop (process_chunk cfg utc_tt eph) ps1 cs = Inr qs"
    by (auto split: sum.splits)
  from Cons.IH [OF rest] process_chunk_Inr [OF p1] show ?case by simp
qed

lemma find_retrograde_periods_concat:
  "find_retrograde_periods cfg utc_tt eph = Inr ps \<Longrightarrow>
     ps = concat (map (\<lambda>samples. extract_chunk samples []) (scanned_chunks cfg utc_tt eph))"
  using chunk_loop_Inr [of cfg utc_tt eph "[]"]
  by (simp add: find_retrograde_periods_def scanned_chunks_def)

lemma process_chunk_error: "process_chunk cfg utc_tt eph ps c = Inl e \<Longrightarrow> e = ValueError"
  by (auto simp: process_chunk_def chunk_times_def np_linspace_def Let_def
      split: sum.splits option.splits if_splits)

lemma chunk_loop_error:
  "chunk_loop (process_chunk cfg utc_tt eph) ps cs = Inl e \<Longrightarrow> e = ValueError"
proof (induction cs arbitrary: ps)
  case Nil
  then show ?case by simp
next
  case (Cons c cs)
  then show ?case
    by (auto split: sum.splits dest: process_chunk_error)
qed

lemma find_retrograde_periods_error:
  "find_retrograde_periods cfg utc_tt eph = Inl e \<Longrightarrow> e = ValueError"
  unfolding find_retrograde_periods_def by (rule chunk_loop_error)

lemma chunk_times_defined:
  "0 \<le> (utc_tt (chunk_end_of cfg c) 12 31 - utc_tt c 1 1) * samples_per_day cfg \<Longrightarrow>
     \<exists>tms. chunk_times cfg utc_tt c = Inr tms"
  by (simp add: chunk_times_def np_linspace_def Let_def py_int_def)

lemma process_chunk_defined:
  "\<exists>tms. chunk_times cfg utc_tt c = Inr tms \<Longrightarrow> \<exists>qs. process_chunk cfg utc_tt eph ps c = Inr qs"
  by (auto simp: process_chunk_def split: option.splits)

lemma chunk_loop_defined:
  "\<forall>c \<in> set cs. \<exists>tms. chunk_times cfg utc_tt c = Inr tms \<Longrightarrow>
     \<exists>qs. chunk_loop (process_chunk cfg utc_tt eph) ps cs = Inr qs"
proof (induction cs arbitrary: ps)
  case Nil
  then show ?case by simp
next
  case (Cons c cs)
  from Cons.prems have "\<exists>tms. chunk_times cfg utc_tt c = Inr tms" by simp
  from process_chunk_defined [OF this] obtain ps1 where "process_chunk cfg utc_tt eph ps c = Inr ps1"
    by blast
  moreover from Cons.prems have "\<exists>qs. chunk_loop (process_chunk cfg utc_tt eph) ps1 cs = Inr qs"
    by (intro Cons.IH) simp
  ultimately show ?case by simp
qed










lemma py_range_two_chunks: "py_range 2024 2028 2 = [2024, 2026]"
  by (simp add: py_range_def upt_rec)

lemma chunk_times_2024:
  "chunk_times two_chunks_config quarter_scale 2024 =
     Inr [8096, 8097.1, 8098.2, 8099.3, 8100.4, 8101.5, 8102.6, 8103.7, 8104.8, 8105.9, 8107]"
  by (simp add: chunk_times_def two_chunks_config_def quarter_scale_def chunk_end_of_def
      py_int_def np_linspace_def upt_rec Let_def)

lemma chunk_times_2026:
  "chunk_times two_chunks_config quarter_scale 2026 =
     Inr [8104, 8105.1, 8106.2, 8107.3, 8108.4, 8109.5, 8110.6, 8111.7, 8112.8, 8113.9, 8115]"
  by (simp add: chunk_times_def two_chunks_config_def quarter_scale_def chunk_end_of_def
      py_int_def np_linspace_def upt_rec Let_def)



lemma py_range_last_chunk: "py_range 2024 2025 1 = [2024]"
  by (simp add: py_range_def upt_rec)

lemma chunk_samples_2024:
  "chunk_samples two_chunks_config quarter_scale drop_ephemeris 2024 =
     [[(8096, 10), (8097.1, 10), (8098.2, 10), (8099.3, 10), (8100.4, 10), (8101.5, 10),
       (8102.6, 10), (8103.7, 10), (8104.8, 10), (8105.9, 8), (8107, 8)]]"
  by (simp add: chunk_samples_def chunk_times_2024 drop_ephemeris_def observe_def)

lemma chunk_samples_2026:
  "chunk_samples two_chunks_config quarter_scale drop_ephemeris 2026 =
     [[(8104, 10), (8105.1, 8), (8106.2, 8), (8107.3, 8), (8108.4, 8), (8109.5, 8),
       (8110.6, 8), (8111.7, 8), (8112.8, 8), (8113.9, 8), (8115, 8)]]"
  by (simp add: chunk_samples_def chunk_times_2026 drop_ephemeris_def observe_def)

lemma scanned_chunks_two_chunks:
  "scanned_chunks two_chunks_config quarter_scale drop_ephemeris =
     [[(8096, 10), (8097.1, 10), (8098.2, 10), (8099.3, 10), (8100.4, 10), (8101.5, 10),
       (8102.6, 10), (8103.7, 10), (8104.8, 10), (8105.9, 8), (8107, 8)],
      [(8104, 10), (8105.1, 8), (8106.2, 8), (8107.3, 8), (8108.4, 8), (8109.5, 8),
       (8110.6, 8), (8111.7, 8), (8112.8, 8), (8113.9, 8), (8115, 8)]]"
proof -
  have "scanned_chunks two_chunks_config quarter_scale drop_ephemeris =
      chunk_samples two_chunks_config quarter_scale drop_ephemeris 2024 @
      chunk_samples two_chunks_config quarter_scale drop_ephemeris 2026"
    by (simp add: scanned_chunks_def two_chunks_config_def py_range_two_chunks)
  then show ?thesis by (simp only: chunk_samples_2024 chunk_samples_2026 append.simps)
qed

lemma extract_chunk_2024:
  "extract_chunk [(8096, 10), (8097.1, 10), (8098.2, 10), (8099.3, 10), (8100.4, 10), (8101.5, 10),
       (8102.6, 10), (8103.7, 10), (8104.8, 10), (8105.9, 8), (8107, 8)] [] =
     [\<lparr>start_jd = 8104.8, end_jd = 8105.9\<rparr>]"
  by (simp add: extract_chunk_def scan_chunk_def times_of_def longitudes_of_def is_retrograde_def
        wrapped_diffs_def wrap_low_def wrap_high_def scan_body_def)

lemma extract_chunk_2026:
  "extract_chunk [(8104, 10), (8105.1, 8), (8106.2, 8), (8107.3, 8), (8108.4, 8), (8109.5, 8),
       (8110.6, 8), (8111.7, 8), (8112.8, 8), (8113.9, 8), (8115, 8)] [] =
     [\<lparr>start_jd = 8104, end_jd = 8105.1\<rparr>]"
  by (simp add: extract_chunk_def scan_chunk_def times_of_def longitudes_of_def is_retrograde_def
        wrapped_diffs_def wrap_low_def wrap_high_def scan_body_def)

lemma find_retrograde_periods_defined_two_chunks:
  "\<exists>ps. find_retrograde_periods two_chunks_config quarter_scale drop_ephemeris = Inr ps"
  unfolding find_retrograde_periods_def
proof (rule chunk_loop_defined, rule ballI)
  fix c
  assume "c \<in> set (py_range (START_YEAR two_chunks_config) (END_YEAR two_chunks_config)
      (chunk_years two_chunks_config))"
  then have "c = 2024 \<or> c = 2026"
    by (simp add: two_chunks_config_def py_range_two_chunks)
  then show "\<exists>tms. chunk_times two_chunks_config quarter_scale c = Inr tms"
    using chunk_times_2024 chunk_times_2026 by auto
qed

lemma find_retrograde_periods_two_chunks:
  "find_retrograde_periods two_chunks_config quarter_scale drop_ephemeris =
     Inr [\<lparr>start_jd = 8104.8, end_jd = 8105.9\<rparr>, \<lparr>start_jd = 8104, end_jd = 8105.1\<rparr>]"
proof -
  from find_retrograde_periods_defined_two_chunks obtain ps
    where ps: "find_retrograde_periods two_chunks_config quarter_scale drop_ephemeris = Inr ps"
    by blast
  from find_retrograde_periods_concat [OF ps]
  have "ps = [\<lparr>start_jd = 8104.8, end_jd = 8105.9\<rparr>, \<lparr>start_jd = 8104, end_jd = 8105.1\<rparr>]"
    by (simp only: scanned_chunks_two_chunks list.map concat.simps extract_chunk_2024
        extract_chunk_2026 append.simps)
  with ps show ?thesis by simp
qed




section \<open>Chunks that overlap\<close>






section \<open>Start order across chunks\<close>




section \<open>A run open at the end of the last chunk\<close>

lemma chunk_times_last_chunk:
  "chunk_times last_chunk_config quarter_scale 2024 =
     Inr (map (\<lambda>i. 8096 + real i * (7 / 6)) [0 ..< 7])"
  by (simp add: chunk_times_def last_chunk_config_def quarter_scale_def chunk_end_of_def
      py_int_def np_linspace_def Let_def)

lemma scanned_chunks_last_chunk:
  "scanned_chunks last_chunk_config quarter_scale falling_ephemeris =
     [[(8096, 14), (48583 / 6, 77 / 6), (24295 / 3, 35 / 3), (16199 / 2, 21 / 2),
       (24302 / 3, 28 / 3), (48611 / 6, 49 / 6), (8103, 7)]]"
  by (simp add: scanned_chunks_def last_chunk_config_def py_range_last_chunk chunk_samples_def
      chunk_times_last_chunk [unfolded last_chunk_config_def] falling_ephemeris_def chunk_end_of_def
      observe_def upt_rec)

text \<open>
  C2: the scan of the calculators does not emit the final period. For the longitudes
  10, 8, 6 it returns no period, where the one pass of \<open>generate_test_data.main\<close>
  returns the period from the first to the last sample. The same happens through the
  chunk loop when the last chunk of the range ends inside a retrograde run: with a
  longitude that decreases throughout, \<open>find_retrograde_periods\<close> returns the empty
  list for a single chunk of seven samples, on which the extraction of the test data
  returns the period from 8096 to 8103.
\<close>

theorem calculator_drops_open_run:
  "extract_chunk [(0, 10), (1, 8), (2, 6)] [] = []
   \<and> extract_test_data [(0, 10), (1, 8), (2, 6)] = [\<lparr>start_jd = 0, end_jd = 2\<rparr>]
   \<and> scanned_chunks last_chunk_config quarter_scale falling_ephemeris =
       [[(8096, 14), (48583 / 6, 77 / 6), (24295 / 3, 35 / 3), (16199 / 2, 21 / 2),
         (24302 / 3, 28 / 3), (48611 / 6, 49 / 6), (8103, 7)]]
   \<and> find_retrograde_periods last_chunk_config quarter_scale falling_ephemeris = Inr []
   \<and> extract_test_data [(8096, 14), (48583 / 6, 77 / 6), (24295 / 3, 35 / 3), (16199 / 2, 21 / 2),
         (24302 / 3, 28 / 3), (48611 / 6, 49 / 6), (8103, 7)] =
       [\<lparr>start_jd = 8096, end_jd = 8103\<rparr>]"
proof -
  have a: "extract_chunk [(0, 10), (1, 8), (2, 6)] [] = []"
    by (simp add: extract_chunk_def scan_chunk_def times_of_def longitudes_of_def is_retrograde_def
        wrapped_diffs_def wrap_low_def wrap_high_def scan_body_def)
  have b: "extract_test_data [(0, 10), (1, 8), (2, 6)] = [\<lparr>start_jd = 0, end_jd = 2\<rparr>]"
    by (rule open_run_example)
  note c = scanned_chunks_last_chunk
  have e: "extract_chunk [(8096, 14), (48583 / 6, 77 / 6), (24295 / 3, 35 / 3), (16199 / 2, 21 / 2),
         (24302 / 3, 28 / 3), (48611 / 6, 49 / 6), (8103, 7)] [] = []"
    by (simp add: extract_chunk_def scan_chunk_def times_of_def longitudes_of_def is_retrograde_def
        wrapped_diffs_def wrap_low_def wrap_high_def scan_body_def)
  have "\<exists>ps. find_retrograde_periods last_chunk_config quarter_scale falling_ephemeris = Inr ps"
    unfolding find_retrograde_periods_def
    by (rule chunk_loop_defined)
      (simp add: last_chunk_config_def py_range_last_chunk chunk_times_last_chunk [unfolded last_chunk_config_def])
  then obtain ps where ps: "find_retrograde_periods last_chunk_config quarter_scale falling_ephemeris = Inr ps"
    by (elim exE)
  from find_retrograde_periods_concat [OF ps] have "ps = []"
    by (simp only: c list.map concat.simps e append.simps)
  with ps have d: "find_retrograde_periods last_chunk_config quarter_scale falling_ephemeris = Inr []"
    by simp
  have f: "extract_test_data [(8096, 14), (48583 / 6, 77 / 6), (24295 / 3, 35 / 3), (16199 / 2, 21 / 2),
         (24302 / 3, 28 / 3), (48611 / 6, 49 / 6), (8103, 7)] = [\<lparr>start_jd = 8096, end_jd = 8103\<rparr>]"
    by (simp add: extract_test_data_def scan_test_data_def times_of_def longitudes_of_def
      is_retrograde_def wrapped_diffs_def wrap_low_def wrap_high_def scan_body_test_data_def)
  from a b c d f show ?thesis by (intro conjI)
qed

section \<open>The average per year\<close>

lemma py_range_empty: "stop \<le> start \<Longrightarrow> 0 < step \<Longrightarrow> py_range start stop step = []"
proof -
  assume "stop \<le> start" "0 < step"
  then have "(stop - start + step - 1) div step \<le> (step - 1) div step"
    by (intro zdiv_mono1) simp_all
  also from \<open>0 < step\<close> have "(step - 1) div step = 0"
    by (intro div_pos_pos_trivial) simp_all
  finally have "(stop - start + step - 1) div step \<le> 0" .
  then show ?thesis by (simp add: py_range_def)
qed

lemma find_retrograde_periods_empty_range:
  "END_YEAR cfg \<le> START_YEAR cfg \<Longrightarrow> 0 < chunk_years cfg \<Longrightarrow>
     find_retrograde_periods cfg utc_tt eph = Inr []"
  by (simp add: find_retrograde_periods_def py_range_empty)

lemma find_retrograde_periods_defined:
  "\<forall>c \<in> set (py_range (START_YEAR cfg) (END_YEAR cfg) (chunk_years cfg)).
      0 \<le> (utc_tt (chunk_end_of cfg c) 12 31 - utc_tt c 1 1) * samples_per_day cfg \<Longrightarrow>
     \<exists>ps. find_retrograde_periods cfg utc_tt eph = Inr ps"
  unfolding find_retrograde_periods_def
  by (rule chunk_loop_defined) (simp add: chunk_times_defined)

lemma make_entry_average:
  "ps = [] \<or> END_YEAR cfg - START_YEAR cfg \<noteq> 0 \<Longrightarrow>
     \<exists>e. make_entry cfg ps = Inr e
        \<and> entry_periods e = ps
        \<and> count e = length (entry_periods e)
        \<and> average_per_year e =
            (if END_YEAR cfg - START_YEAR cfg = 0 \<or> entry_periods e = [] then 0
             else real (count e) / real_of_int (END_YEAR cfg - START_YEAR cfg))"
  by (auto simp: make_entry_def)

text \<open>
  C7: the entry that \<open>calculate_all_retrogrades\<close> builds for a body never fails with
  a division error. Whenever the chunk loop returns a list, the entry is defined: its
  average per year is the count divided by \<open>END_YEAR - START_YEAR\<close>, and exactly 0
  when that range is zero or the body has no period; for a zero range the chunk loop
  runs no iteration, so the list is empty and the division is not reached. The chunk
  loop returns a list whenever no chunk ends before it starts. The entry of
  \<open>generate_test_data.main\<close>, for its one year, has the count as average (the count
  over one year), which is 0 when there is no period.
\<close>

theorem average_per_year_defined:
  "0 < chunk_years cfg \<Longrightarrow>
     calculate_entry cfg utc_tt eph \<noteq> Inl ZeroDivisionError
     \<and> (\<forall>ps. find_retrograde_periods cfg utc_tt eph = Inr ps \<longrightarrow>
          (\<exists>e. calculate_entry cfg utc_tt eph = Inr e
             \<and> entry_periods e = ps
             \<and> count e = length (entry_periods e)
             \<and> average_per_year e =
                 (if END_YEAR cfg - START_YEAR cfg = 0 \<or> entry_periods e = [] then 0
                  else real (count e) / real_of_int (END_YEAR cfg - START_YEAR cfg))))
     \<and> (END_YEAR cfg - START_YEAR cfg = 0 \<longrightarrow>
          (\<exists>e. calculate_entry cfg utc_tt eph = Inr e \<and> entry_periods e = []
             \<and> average_per_year e = 0))
     \<and> ((\<forall>c \<in> set (py_range (START_YEAR cfg) (END_YEAR cfg) (chunk_years cfg)).
            0 \<le> (utc_tt (chunk_end_of cfg c) 12 31 - utc_tt c 1 1) * samples_per_day cfg) \<longrightarrow>
          (\<exists>e. calculate_entry cfg utc_tt eph = Inr e))
     \<and> count (test_data_entry observed) = length (entry_periods (test_data_entry observed))
     \<and> average_per_year (test_data_entry observed) = real (count (test_data_entry observed)) / 1
     \<and> (entry_periods (test_data_entry observed) = []
          \<longrightarrow> average_per_year (test_data_entry observed) = 0)"
proof -
  assume step: "0 < chunk_years cfg"
  have entry: "\<exists>e. calculate_entry cfg utc_tt eph = Inr e
             \<and> entry_periods e = ps
             \<and> count e = length (entry_periods e)
             \<and> average_per_year e =
                 (if END_YEAR cfg - START_YEAR cfg = 0 \<or> entry_periods e = [] then 0
                  else real (count e) / real_of_int (END_YEAR cfg - START_YEAR cfg))"
    if ps: "find_retrograde_periods cfg utc_tt eph = Inr ps" for ps
  proof -
    have "ps = [] \<or> END_YEAR cfg - START_YEAR cfg \<noteq> 0"
    proof (cases "END_YEAR cfg - START_YEAR cfg = 0")
      case True
      then have "find_retrograde_periods cfg utc_tt eph = Inr []"
        using find_retrograde_periods_empty_range [OF _ step] by simp
      with ps show ?thesis by simp
    next
      case False
      then show ?thesis by simp
    qed
    from make_entry_average [OF this] ps show ?thesis
      by (simp add: calculate_entry_def)
  qed
  have a: "calculate_entry cfg utc_tt eph \<noteq> Inl ZeroDivisionError"
  proof (cases "find_retrograde_periods cfg utc_tt eph")
    case (Inl e)
    with find_retrograde_periods_error [OF Inl] show ?thesis
      by (simp add: calculate_entry_def)
  next
    case (Inr ps)
    from entry [OF Inr] show ?thesis by auto
  qed
  have b: "\<forall>ps. find_retrograde_periods cfg utc_tt eph = Inr ps \<longrightarrow>
          (\<exists>e. calculate_entry cfg utc_tt eph = Inr e
             \<and> entry_periods e = ps
             \<and> count e = length (entry_periods e)
             \<and> average_per_year e =
                 (if END_YEAR cfg - START_YEAR cfg = 0 \<or> entry_periods e = [] then 0
                  else real (count e) / real_of_int (END_YEAR cfg - START_YEAR cfg)))"
    using entry by blast
  have c: "END_YEAR cfg - START_YEAR cfg = 0 \<longrightarrow>
          (\<exists>e. calculate_entry cfg utc_tt eph = Inr e \<and> entry_periods e = []
             \<and> average_per_year e = 0)"
  proof
    assume z: "END_YEAR cfg - START_YEAR cfg = 0"
    then have "find_retrograde_periods cfg utc_tt eph = Inr []"
      using find_retrograde_periods_empty_range [OF _ step] by simp
    then show "\<exists>e. calculate_entry cfg utc_tt eph = Inr e \<and> entry_periods e = []
             \<and> average_per_year e = 0"
      by (simp add: calculate_entry_def make_entry_def)
  qed
  have d: "(\<forall>c \<in> set (py_range (START_YEAR cfg) (END_YEAR cfg) (chunk_years cfg)).
            0 \<le> (utc_tt (chunk_end_of cfg c) 12 31 - utc_tt c 1 1) * samples_per_day cfg) \<longrightarrow>
          (\<exists>e. calculate_entry cfg utc_tt eph = Inr e)"
  proof
    assume "\<forall>c \<in> set (py_range (START_YEAR cfg) (END_YEAR cfg) (chunk_years cfg)).
            0 \<le> (utc_tt (chunk_end_of cfg c) 12 31 - utc_tt c 1 1) * samples_per_day cfg"
    from find_retrograde_periods_defined [OF this, of eph] obtain ps
      where "find_retrograde_periods cfg utc_tt eph = Inr ps" by (elim exE)
    from entry [OF this] show "\<exists>e. calculate_entry cfg utc_tt eph = Inr e" by (elim exE conjE) (rule exI)
  qed
  have e: "count (test_data_entry observed) = length (entry_periods (test_data_entry observed))"
    by (simp add: test_data_entry_def Let_def split: option.splits)
  have f: "average_per_year (test_data_entry observed) = real (count (test_data_entry observed)) / 1"
    by (simp add: test_data_entry_def Let_def split: option.splits)
  have g: "entry_periods (test_data_entry observed) = []
          \<longrightarrow> average_per_year (test_data_entry observed) = 0"
    by (simp add: test_data_entry_def Let_def split: option.splits)
  from a b c d e f g show ?thesis by (intro conjI)
qed

lemma py_range_1950_2050:
  "py_range 1950 2050 10 = [1950, 1960, 1970, 1980, 1990, 2000, 2010, 2020, 2030, 2040]"
  by (simp add: py_range_def upt_rec)

theorem average_per_year_defined_witness:
  "0 < chunk_years two_chunks_config
   \<and> find_retrograde_periods two_chunks_config quarter_scale drop_ephemeris =
       Inr [\<lparr>start_jd = 8104.8, end_jd = 8105.9\<rparr>, \<lparr>start_jd = 8104, end_jd = 8105.1\<rparr>]
   \<and> (\<exists>e. calculate_entry two_chunks_config quarter_scale drop_ephemeris = Inr e
          \<and> count e = 2 \<and> average_per_year e = 2 / 4)
   \<and> 0 < chunk_years \<lparr>START_YEAR = 2024, END_YEAR = 2024, chunk_years = 10, samples_per_day = 1\<rparr>
   \<and> END_YEAR \<lparr>START_YEAR = 2024, END_YEAR = 2024, chunk_years = 10, samples_per_day = 1\<rparr>
       - START_YEAR \<lparr>START_YEAR = 2024, END_YEAR = 2024, chunk_years = 10, samples_per_day = 1\<rparr> = 0
   \<and> (\<exists>e. calculate_entry \<lparr>START_YEAR = 2024, END_YEAR = 2024, chunk_years = 10, samples_per_day = 1\<rparr>
             quarter_scale drop_ephemeris = Inr e
          \<and> average_per_year e = 0)
   \<and> 0 < chunk_years calculator_1950_2050_config
   \<and> (\<exists>e. calculate_entry calculator_1950_2050_config quarter_scale drop_ephemeris = Inr e)
   \<and> entry_periods (test_data_entry None) = []
   \<and> average_per_year (test_data_entry None) = 0"
proof -
  let ?cfg = "two_chunks_config"
  let ?zero = "\<lparr>START_YEAR = 2024, END_YEAR = 2024, chunk_years = 10, samples_per_day = 1\<rparr>"
  let ?real = "calculator_1950_2050_config"
  have step: "0 < chunk_years ?cfg" by (simp add: two_chunks_config_def)
  have step0: "0 < chunk_years ?zero" by simp
  have step1: "0 < chunk_years ?real" by (simp add: calculator_1950_2050_config_def)
  have z0: "END_YEAR ?zero - START_YEAR ?zero = 0" by simp
  note ev = find_retrograde_periods_two_chunks
  from average_per_year_defined [OF step, of quarter_scale drop_ephemeris None,
      THEN conjunct2, THEN conjunct1, THEN spec, THEN mp, OF ev]
  obtain e where e: "calculate_entry ?cfg quarter_scale drop_ephemeris = Inr e"
    and ep: "entry_periods e = [\<lparr>start_jd = 8104.8, end_jd = 8105.9\<rparr>, \<lparr>start_jd = 8104, end_jd = 8105.1\<rparr>]"
    and ec: "count e = length (entry_periods e)"
    and ea: "average_per_year e =
            (if END_YEAR ?cfg - START_YEAR ?cfg = 0 \<or> entry_periods e = [] then 0
             else real (count e) / real_of_int (END_YEAR ?cfg - START_YEAR ?cfg))"
    by (elim exE conjE)
  from ep ec have c2: "count e = 2" by simp
  from ea ep c2 have "average_per_year e = 2 / 4"
    by (simp add: two_chunks_config_def)
  with e c2 have a: "\<exists>e. calculate_entry ?cfg quarter_scale drop_ephemeris = Inr e
          \<and> count e = 2 \<and> average_per_year e = 2 / 4"
    by (intro exI [of _ e] conjI)
  from average_per_year_defined [OF step0, of quarter_scale drop_ephemeris None,
      THEN conjunct2, THEN conjunct2, THEN conjunct1, THEN mp, OF z0]
  obtain z where z: "calculate_entry ?zero quarter_scale drop_ephemeris = Inr z"
    and za: "average_per_year z = 0"
    by (elim exE conjE)
  then have b: "\<exists>e. calculate_entry ?zero quarter_scale drop_ephemeris = Inr e \<and> average_per_year e = 0"
    by (intro exI [of _ z] conjI)
  have ordered: "\<forall>c \<in> set (py_range (START_YEAR ?real) (END_YEAR ?real) (chunk_years ?real)).
      0 \<le> (quarter_scale (chunk_end_of ?real c) 12 31 - quarter_scale c 1 1) * samples_per_day ?real"
    by (simp add: calculator_1950_2050_config_def py_range_1950_2050 chunk_end_of_def quarter_scale_def)
  from average_per_year_defined [OF step1, of quarter_scale drop_ephemeris None,
      THEN conjunct2, THEN conjunct2, THEN conjunct2, THEN conjunct1, THEN mp, OF ordered]
  have c: "\<exists>e. calculate_entry ?real quarter_scale drop_ephemeris = Inr e" .
  have n: "entry_periods (test_data_entry None) = []"
    by (simp add: test_data_entry_def)
  from average_per_year_defined [OF step, of quarter_scale drop_ephemeris None,
      THEN conjunct2, THEN conjunct2, THEN conjunct2, THEN conjunct2, THEN conjunct2,
      THEN conjunct2, THEN mp, OF n]
  have d: "average_per_year (test_data_entry None) = 0" .
  from step ev a step0 z0 b step1 c n d show ?thesis by (intro conjI)
qed

section \<open>Two runs on the same arrays\<close>

lemma is_retrograde_store_result:
  "fst (is_retrograde_store h a) = is_retrograde (h ! a)"
  by (simp add: is_retrograde_store_def np_diff_store_def Let_def is_retrograde_def
      wrapped_diffs_def wrap_low_def wrap_high_def)

lemma is_retrograde_store_frame:
  "b < length h \<Longrightarrow> snd (is_retrograde_store h a) ! b = h ! b"
  by (simp add: is_retrograde_store_def np_diff_store_def Let_def nth_append)

lemma is_retrograde_store_length:
  "length (snd (is_retrograde_store h a)) = Suc (length h)"
  by (simp add: is_retrograde_store_def np_diff_store_def Let_def)

lemma extract_store_result:
  "tms < length h \<Longrightarrow>
     fst (extract_store h tms longitudes) =
       periods (for_enumerate (scan_body (h ! tms)) 0 (is_retrograde (h ! longitudes))
                 \<lparr>periods = [], in_retrograde = False, start_idx = None\<rparr>)"
  using is_retrograde_store_result [of h longitudes] is_retrograde_store_frame [of tms h longitudes]
  by (simp add: extract_store_def Let_def split_beta)

lemma extract_store_frame:
  "b < length h \<Longrightarrow> snd (extract_store h tms longitudes) ! b = h ! b"
  using is_retrograde_store_frame [of b h longitudes]
  by (simp add: extract_store_def Let_def split_beta)

lemma extract_store_length:
  "length (snd (extract_store h tms longitudes)) = Suc (length h)"
  using is_retrograde_store_length [of h longitudes]
  by (simp add: extract_store_def Let_def split_beta)

text \<open>
  C9: a run of the extraction on two arrays of a store leaves both arrays as they were
  (the in-place updates of \<open>is_retrograde\<close> write to the fresh array of \<open>np.diff\<close>
  only), so a second run on the same arrays returns the identical list of periods; the
  list depends on the contents of the two arrays and on nothing else in the store, and
  it is the list that the scan of a chunk returns from an empty list.
\<close>

theorem extraction_repeatable:
  "tms < length h \<and> longitudes < length h \<longrightarrow>
     snd (extract_store h tms longitudes) ! tms = h ! tms
     \<and> snd (extract_store h tms longitudes) ! longitudes = h ! longitudes
     \<and> fst (extract_store (snd (extract_store h tms longitudes)) tms longitudes) =
         fst (extract_store h tms longitudes)
     \<and> (\<forall>h' tms' longitudes'.
          tms' < length h' \<and> longitudes' < length h'
          \<and> h' ! tms' = h ! tms \<and> h' ! longitudes' = h ! longitudes
          \<longrightarrow> fst (extract_store h' tms' longitudes') = fst (extract_store h tms longitudes))
     \<and> (\<forall>samples. h ! tms = times_of samples \<and> h ! longitudes = longitudes_of samples
          \<longrightarrow> fst (extract_store h tms longitudes) = extract_chunk samples [])"
proof (intro impI conjI allI)
  assume "tms < length h \<and> longitudes < length h"
  then have t: "tms < length h" and l: "longitudes < length h" by simp_all
  let ?h1 = "snd (extract_store h tms longitudes)"
  show ft: "?h1 ! tms = h ! tms" by (rule extract_store_frame [OF t])
  show fl: "?h1 ! longitudes = h ! longitudes" by (rule extract_store_frame [OF l])
  have t1: "tms < length ?h1" using t by (simp add: extract_store_length)
  show "fst (extract_store ?h1 tms longitudes) = fst (extract_store h tms longitudes)"
    by (simp only: extract_store_result [OF t1] extract_store_result [OF t] ft fl)
  show "fst (extract_store h' tms' longitudes') = fst (extract_store h tms longitudes)"
    if "tms' < length h' \<and> longitudes' < length h'
          \<and> h' ! tms' = h ! tms \<and> h' ! longitudes' = h ! longitudes" for h' tms' longitudes'
    using that by (simp add: extract_store_result t)
  show "fst (extract_store h tms longitudes) = extract_chunk samples []"
    if "h ! tms = times_of samples \<and> h ! longitudes = longitudes_of samples" for samples
    using that by (simp add: extract_store_result t extract_chunk_def scan_chunk_def)
qed

theorem extraction_repeatable_witness:
  "(0::nat) < length [[0, 1, 2, 3 :: real], [10, 8, 6, 7]] \<and> (1::nat) < length [[0, 1, 2, 3 :: real], [10, 8, 6, 7]]
   \<and> extract_store [[0, 1, 2, 3], [10, 8, 6, 7]] 0 1 =
       ([\<lparr>start_jd = 0, end_jd = 2\<rparr>], [[0, 1, 2, 3], [10, 8, 6, 7], [- 2, - 2, 1]])
   \<and> fst (extract_store (snd (extract_store [[0, 1, 2, 3], [10, 8, 6, 7]] 0 1)) 0 1) =
       fst (extract_store [[0, 1, 2, 3], [10, 8, 6, 7]] 0 1)"
proof -
  let ?h = "[[0, 1, 2, 3], [10, 8, 6, 7]] :: store"
  have hyp: "0 < length ?h \<and> 1 < length ?h" by simp
  have ev: "extract_store ?h 0 1 = ([\<lparr>start_jd = 0, end_jd = 2\<rparr>], [[0, 1, 2, 3], [10, 8, 6, 7], [- 2, - 2, 1]])"
    by (simp add: extract_store_def is_retrograde_store_def np_diff_store_def Let_def scan_body_def)
  from extraction_repeatable [of 0 ?h 1, THEN mp, OF hyp]
  have "fst (extract_store (snd (extract_store ?h 0 1)) 0 1) = fst (extract_store ?h 0 1)"
    by (elim conjE)
  with hyp ev show ?thesis by (intro conjI) simp_all
qed


end
